theory Spec2Isabelle
  imports Main "HOL-Library.Word" "HOL-Library.Signed_Division"
begin

unbundle bit_operations_syntax

section \<open>Console character conversion (sim_console.cpp)\<close>

text \<open>
  The terminal-mode constants come from a header that is not part of the sources at
  hand, so they are a parameter of the model. \<open>sim_tt_outcvt\<close> only compares the
  masked mode against them.
\<close>

record ttuf =
  TTUF_M_MODE :: "32 word"
  TTUF_MODE_7B :: "32 word"
  TTUF_MODE_8B :: "32 word"
  TTUF_MODE_UC :: "32 word"
  TTUF_MODE_7P :: "32 word"
  TTUF_KSR :: "32 word"

text \<open>\<open>islower\<close> and \<open>toupper\<close> of the C locale, on a value already masked to 7 bits.\<close>

definition islower_c :: "32 word \<Rightarrow> bool" where
  "islower_c c = (0x61 \<le> sint c \<and> sint c \<le> 0x7A)"

definition toupper_c :: "32 word \<Rightarrow> 32 word" where
  "toupper_c c = (if islower_c c then c - 0x20 else c)"

text \<open>
  \<open>sim_tt_outcvt (c, mode)\<close>, with the global \<open>sim_tt_pchar\<close> as the argument
  \<open>pchar\<close>. The result \<open>-1\<close> means that the character is dropped.
\<close>

definition sim_tt_outcvt :: "ttuf \<Rightarrow> 32 word \<Rightarrow> 32 word \<Rightarrow> 32 word \<Rightarrow> 32 word" where
  "sim_tt_outcvt k pchar c mode =
     (let md = mode AND TTUF_M_MODE k in
      if md \<noteq> TTUF_MODE_8B k then
        (let c1 = c AND 0x7F;
             c2 = (if md = TTUF_MODE_UC k then (if islower_c c1 then toupper_c c1 else c1) else c1)
         in if md = TTUF_MODE_UC k \<and> (mode AND TTUF_KSR k) \<noteq> 0 \<and> 0x60 \<le> sint c2 then - 1
            else if (md = TTUF_MODE_UC k \<or> md = TTUF_MODE_7P k) \<and>
                    (c2 = 0x7F \<or>
                     (sint c2 < 0x20 \<and> (signed_drop_bit (unat c2) pchar) AND 1 = 0)) then - 1
            else c2)
      else c AND 0xFF)"

text \<open>
  Values for these constants, used in the examples: the mode is a field of two bits,
  here the lowest two, and the KSR flag is the bit above it.
\<close>

definition ttuf_std :: ttuf where
  "ttuf_std = \<lparr> TTUF_M_MODE = 3, TTUF_MODE_7B = 0, TTUF_MODE_8B = 1,
                TTUF_MODE_UC = 2, TTUF_MODE_7P = 3, TTUF_KSR = 4 \<rparr>"

section \<open>Telnet terminal multiplexer (sim_tmxr.cpp): data\<close>

type_synonym byte = "8 word"

text \<open>
  Constants of headers that are not part of the sources at hand: the size of the fixed
  line buffers, the guard, the two flag bits of the value \<open>tmxr_getc_ln\<close> returns,
  and the two failure values of the socket layer; also whether the build defines
  \<open>VM_VAX\<close>, which selects the Telnet mantra.
\<close>

record hdr =
  TMXR_MAXBUF :: int
  TMXR_GUARD :: int
  TMXR_VALID :: "32 word"
  SCPE_BREAK :: "32 word"
  INVALID_SOCKET :: int
  SOCKET_ERROR :: int
  VM_VAX :: bool

text \<open>The status codes the multiplexer returns.\<close>

datatype t_stat = SCPE_OK | SCPE_LOST | SCPE_STALL | SCPE_TTOERR

text \<open>Telnet commands are negative \<open>signed char\<close> values; as bytes, \<open>-1\<close> is 0xFF.\<close>

definition TN_IAC :: byte where "TN_IAC = - 1"
definition TN_DONT :: byte where "TN_DONT = - 2"
definition TN_DO :: byte where "TN_DO = - 3"
definition TN_WONT :: byte where "TN_WONT = - 4"
definition TN_WILL :: byte where "TN_WILL = - 5"
definition TN_SB :: byte where "TN_SB = - 6"
definition TN_GA :: byte where "TN_GA = - 7"
definition TN_EL :: byte where "TN_EL = - 8"
definition TN_EC :: byte where "TN_EC = - 9"
definition TN_AYT :: byte where "TN_AYT = - 10"
definition TN_AO :: byte where "TN_AO = - 11"
definition TN_IP :: byte where "TN_IP = - 12"
definition TN_BRK :: byte where "TN_BRK = - 13"
definition TN_DATAMK :: byte where "TN_DATAMK = - 14"
definition TN_NOP :: byte where "TN_NOP = - 15"
definition TN_SE :: byte where "TN_SE = - 16"

definition TN_BIN :: byte where "TN_BIN = 0"
definition TN_ECHO :: byte where "TN_ECHO = 1"
definition TN_SGA :: byte where "TN_SGA = 3"
definition TN_LINE :: byte where "TN_LINE = 34"
definition TN_CR :: byte where "TN_CR = 0x0D"
definition TN_LF :: byte where "TN_LF = 0x0A"
definition TN_NUL :: byte where "TN_NUL = 0"

lemmas TN_defs = TN_IAC_def TN_DONT_def TN_DO_def TN_WONT_def TN_WILL_def TN_SB_def
  TN_GA_def TN_EL_def TN_EC_def TN_AYT_def TN_AO_def TN_IP_def TN_BRK_def TN_DATAMK_def
  TN_NOP_def TN_SE_def TN_BIN_def TN_ECHO_def TN_SGA_def TN_LINE_def TN_CR_def TN_LF_def
  TN_NUL_def

text \<open>Telnet line states.\<close>

definition TNS_NORM :: int where "TNS_NORM = 0"
definition TNS_IAC :: int where "TNS_IAC = 1"
definition TNS_WILL :: int where "TNS_WILL = 2"
definition TNS_WONT :: int where "TNS_WONT = 3"
definition TNS_SKIP :: int where "TNS_SKIP = 4"
definition TNS_CRPAD :: int where "TNS_CRPAD = 5"
definition TNS_DO :: int where "TNS_DO = 6"
definition TNS_DONT :: int where "TNS_DONT = 7"

lemmas TNS_defs = TNS_NORM_def TNS_IAC_def TNS_WILL_def TNS_WONT_def TNS_SKIP_def
  TNS_CRPAD_def TNS_DO_def TNS_DONT_def

text \<open>
  A log file is the bytes already flushed and the bytes still in the stdio buffer:
  \<open>fputc\<close> appends to the buffer, \<open>fflush\<close> empties it into the file.
\<close>

record logfile =
  flushed :: "byte list"
  pending :: "byte list"

definition fputc :: "byte \<Rightarrow> logfile \<Rightarrow> logfile" where
  "fputc c f = f\<lparr>pending := pending f @ [c]\<rparr>"

definition fflush :: "logfile \<Rightarrow> logfile" where
  "fflush f = f\<lparr>flushed := flushed f @ pending f, pending := []\<rparr>"

text \<open>
  The line descriptor \<open>TMLN\<close>. Indices, sizes and the Telnet state are \<open>int32\<close>
  values that stay within the buffer sizes, modelled as \<open>int\<close>; the three statistics
  counters are 32-bit words, so that incrementing them wraps. The flags \<open>rcve\<close>,
  \<open>xmte\<close>, \<open>dstb\<close> and \<open>txbfd\<close> are only ever set to 0 or 1 and tested for
  zero. \<open>conn\<close> is the socket, 0 when the line has no connection. The back pointer
  to the multiplexer serves the debug tap only and is left out.
\<close>

record tmln =
  conn :: int
  ipad :: "32 word"
  cnms :: "32 word"
  tsta :: int
  rcve :: bool
  xmte :: bool
  dstb :: bool
  rxbpr :: int
  rxbpi :: int
  rxcnt :: "32 word"
  txbpr :: int
  txbpi :: int
  txcnt :: "32 word"
  txdrp :: "32 word"
  txbsz :: int
  txbfd :: bool
  txlog :: "logfile option"
  rxb :: "byte list"
  rbr :: "bool list"
  txb :: "byte list"

text \<open>
  The multiplexer descriptor \<open>TMXR\<close>: \<open>lnorder\<close> is the optional connection
  order array, \<open>dptr\<close> the optional device, of which only the name is used.
\<close>

record tmxr =
  lines :: int
  port :: int
  master :: int
  ldsc :: "tmln list"
  lnorder :: "int list option"
  dptr :: "byte list option"
  buffered :: int

text \<open>
  The socket layer and the clock are outside the multiplexer. Every call to them is
  recorded as an event; what a call returns is given by an oracle that sees the events so
  far, so that two calls with the same arguments may answer differently.
\<close>

datatype event =
    Accept int int "32 word"
  | Write int "byte list" int
  | Read int int "byte list option"
  | Close int int
  | Msec "32 word"
  | OsPutchar "32 word" t_stat

record env =
  sim_accept_conn :: "event list \<Rightarrow> int \<Rightarrow> int \<times> 32 word"
  sim_write_sock :: "event list \<Rightarrow> int \<Rightarrow> byte list \<Rightarrow> int"
  sim_read_sock :: "event list \<Rightarrow> int \<Rightarrow> int \<Rightarrow> byte list option"
  sim_os_msec :: "event list \<Rightarrow> 32 word"
  sim_os_putchar :: "event list \<Rightarrow> 32 word \<Rightarrow> t_stat"
  sim_name :: "byte list"

definition write_sock :: "env \<Rightarrow> int \<Rightarrow> byte list \<Rightarrow> event list \<Rightarrow> int \<times> event list" where
  "write_sock e s bs tr = (let r = sim_write_sock e tr s bs in (r, tr @ [Write s bs r]))"

definition close_sock :: "int \<Rightarrow> int \<Rightarrow> event list \<Rightarrow> event list" where
  "close_sock s flg tr = tr @ [Close s flg]"

text \<open>
  \<open>sim_read_sock (sock, buf, n)\<close>: \<open>None\<close> stands for the negative result (error or
  connection closed); otherwise the bytes received, never more than the \<open>n\<close> asked for.
\<close>

definition read_sock :: "env \<Rightarrow> int \<Rightarrow> int \<Rightarrow> event list \<Rightarrow> byte list option \<times> event list" where
  "read_sock e s n tr =
     (let r = map_option (take (nat n)) (sim_read_sock e tr s n) in (r, tr @ [Read s n r]))"

text \<open>
  Array accesses. A write outside the array is dropped and a read outside it gives the
  default: the C code would touch neighbouring memory there. The only read the code makes
  beyond the received data is in \<open>tmxr_rmvrc\<close>, and the value read lands in a cell
  at or beyond the new insert pointer.
\<close>

definition arr_get :: "'a list \<Rightarrow> int \<Rightarrow> 'a \<Rightarrow> 'a" where
  "arr_get xs i d = (if 0 \<le> i \<and> i < int (length xs) then xs ! nat i else d)"

definition arr_set :: "'a list \<Rightarrow> int \<Rightarrow> 'a \<Rightarrow> 'a list" where
  "arr_set xs i v = (if 0 \<le> i then xs[nat i := v] else xs)"

fun arr_blit :: "'a list \<Rightarrow> int \<Rightarrow> 'a list \<Rightarrow> 'a list" where
  "arr_blit xs i [] = xs"
| "arr_blit xs i (v # vs) = arr_blit (arr_set xs i v) (i + 1) vs"

definition arr_slice :: "'a list \<Rightarrow> int \<Rightarrow> int \<Rightarrow> 'a list" where
  "arr_slice xs off n = take (nat n) (drop (nat off) xs)"

definition bytes_of :: "string \<Rightarrow> byte list" where
  "bytes_of s = map of_char s"

section \<open>Transmit side\<close>

text \<open>\<open>tmxr_tqln\<close>: the count of buffered characters.\<close>

definition tmxr_tqln :: "tmln \<Rightarrow> int" where
  "tmxr_tqln lp = txbpi lp - txbpr lp + (if txbpi lp < txbpr lp then txbsz lp else 0)"

text \<open>The macros \<open>TXBUF_AVAIL\<close> and \<open>TXBUF_CHAR\<close> of \<open>tmxr_putc_ln\<close>; \<open>%\<close> is C's remainder.\<close>

definition TXBUF_AVAIL :: "tmln \<Rightarrow> int" where
  "TXBUF_AVAIL lp = txbsz lp - tmxr_tqln lp"

definition TXBUF_CHAR :: "tmln \<Rightarrow> byte \<Rightarrow> tmln" where
  "TXBUF_CHAR lp c =
     (let lp1 = lp\<lparr>txb := arr_set (txb lp) (txbpi lp) c, txbpi := txbpi lp + 1\<rparr>;
          lp2 = lp1\<lparr>txbpi := txbpi lp1 smod txbsz lp1\<rparr>
      in if txbpi lp2 = txbpr lp2
         then lp2\<lparr>txbpr := (1 + txbpr lp2) smod txbsz lp2, txdrp := txdrp lp2 + 1\<rparr>
         else lp2)"

text \<open>
  \<open>tmxr_putc_ln\<close>: store a character in the line's transmit buffer. \<open>putc_log\<close>
  is its first statement, the copy of the character to the line's log.
\<close>

definition putc_log :: "tmln \<Rightarrow> 32 word \<Rightarrow> tmln" where
  "putc_log lp chr =
     (case txlog lp of Some f \<Rightarrow> lp\<lparr>txlog := Some (fputc (ucast chr) f)\<rparr> | None \<Rightarrow> lp)"

definition tmxr_putc_ln :: "hdr \<Rightarrow> tmln \<Rightarrow> 32 word \<Rightarrow> t_stat \<times> tmln" where
  "tmxr_putc_ln h lp chr =
     (let lp0 = putc_log lp chr
      in if conn lp0 = 0 \<and> \<not> txbfd lp0 then
           (if txlog lp0 \<noteq> None then (SCPE_OK, lp0)
            else (SCPE_LOST, lp0\<lparr>txdrp := txdrp lp0 + 1\<rparr>))
         else if txbfd lp0 \<or> TXBUF_AVAIL lp0 > 1 then
           (let lp1 = (if TN_IAC = ucast chr then TXBUF_CHAR lp0 TN_IAC else lp0);
                lp2 = TXBUF_CHAR lp1 (ucast chr);
                lp3 = (if \<not> txbfd lp2 \<and> TXBUF_AVAIL lp2 \<le> TMXR_GUARD h
                       then lp2\<lparr>xmte := False\<rparr> else lp2)
            in (SCPE_OK, lp3))
         else (SCPE_STALL, lp0\<lparr>txdrp := txdrp lp0 + 1, xmte := False\<rparr>))"

text \<open>\<open>tmxr_linemsg\<close>: each \<open>char\<close> of the message is promoted to \<open>int32\<close> and put.\<close>

fun tmxr_linemsg :: "hdr \<Rightarrow> tmln \<Rightarrow> byte list \<Rightarrow> tmln" where
  "tmxr_linemsg h lp [] = lp"
| "tmxr_linemsg h lp (c # cs) = tmxr_linemsg h (snd (tmxr_putc_ln h lp (scast c))) cs"

definition tmxr_msg :: "env \<Rightarrow> int \<Rightarrow> byte list \<Rightarrow> event list \<Rightarrow> event list" where
  "tmxr_msg e sock msg tr = (if sock \<noteq> 0 then snd (write_sock e sock msg tr) else tr)"

text \<open>
  \<open>tmxr_send_buffered_data\<close>: one write for the part up to the end of the buffer and,
  when the remove pointer has wrapped to 0 with data left, a second one. Returns the count
  of bytes still buffered. \<open>send_chunk\<close> is what both writes have in common: the call
  of \<open>sim_write_sock\<close> and, unless it failed, the update of the remove pointer, the
  count of bytes sent and the count of bytes left.
\<close>

definition send_chunk ::
    "env \<Rightarrow> hdr \<Rightarrow> byte list \<Rightarrow> int \<Rightarrow> tmln \<Rightarrow> event list \<Rightarrow> int \<times> tmln \<times> event list" where
  "send_chunk e h bs nbytes lp tr =
     (let (sbytes, tr1) = write_sock e (conn lp) bs tr in
      if sbytes \<noteq> SOCKET_ERROR h then
        (let p = txbpr lp + sbytes in
         (nbytes - sbytes,
          lp\<lparr>txbpr := (if p \<ge> txbsz lp then 0 else p), txcnt := txcnt lp + word_of_int sbytes\<rparr>,
          tr1))
      else (nbytes, lp, tr1))"

definition tmxr_send_buffered_data ::
    "env \<Rightarrow> hdr \<Rightarrow> tmln \<Rightarrow> event list \<Rightarrow> int \<times> tmln \<times> event list" where
  "tmxr_send_buffered_data e h lp tr =
     (let nbytes = tmxr_tqln lp in
      if nbytes \<noteq> 0 then
        (let (nbytes1, lp1, tr1) =
               (if txbpr lp < txbpi lp
                then send_chunk e h (arr_slice (txb lp) (txbpr lp) nbytes) nbytes lp tr
                else send_chunk e h (arr_slice (txb lp) (txbpr lp) (txbsz lp - txbpr lp))
                       nbytes lp tr)
         in if nbytes1 \<noteq> 0 \<and> txbpr lp1 = 0
            then send_chunk e h (arr_slice (txb lp1) 0 nbytes1) nbytes1 lp1 tr1
            else (nbytes1, lp1, tr1))
      else (nbytes, lp, tr))"

text \<open>\<open>tmxr_poll_tx\<close>: the loop over the lines, from line \<open>i\<close> on.\<close>

function poll_tx_loop :: "env \<Rightarrow> hdr \<Rightarrow> int \<Rightarrow> tmxr \<Rightarrow> event list \<Rightarrow> tmxr \<times> event list" where
  "poll_tx_loop e h i mp tr =
     (if i < lines mp then
        (let lp = ldsc mp ! nat i in
         if conn lp = 0 then poll_tx_loop e h (i + 1) mp tr
         else
           (let (nbytes, lp1, tr1) = tmxr_send_buffered_data e h lp tr;
                lp2 = (if nbytes = 0 then lp1\<lparr>xmte := True\<rparr> else lp1)
            in poll_tx_loop e h (i + 1) (mp\<lparr>ldsc := (ldsc mp)[nat i := lp2]\<rparr>) tr1))
      else (mp, tr))"
  by pat_completeness auto
termination
  by (relation "measure (\<lambda>(e, h, i, mp, tr). nat (lines mp - i))") auto

declare poll_tx_loop.simps [simp del]

definition tmxr_poll_tx :: "env \<Rightarrow> hdr \<Rightarrow> tmxr \<Rightarrow> event list \<Rightarrow> tmxr \<times> event list" where
  "tmxr_poll_tx e h mp tr = poll_tx_loop e h 0 mp tr"

text \<open>\<open>tmxr_reset_ln\<close>: reset a line.\<close>

definition tmxr_reset_ln :: "env \<Rightarrow> hdr \<Rightarrow> tmln \<Rightarrow> event list \<Rightarrow> tmln \<times> event list" where
  "tmxr_reset_ln e h lp tr =
     (let lp0 = (case txlog lp of Some f \<Rightarrow> lp\<lparr>txlog := Some (fflush f)\<rparr> | None \<Rightarrow> lp);
          (n, lp1, tr1) = tmxr_send_buffered_data e h lp0 tr;
          tr2 = close_sock (conn lp1) 0 tr1;
          lp2 = lp1\<lparr>conn := 0, tsta := 0, rxbpr := 0, rxbpi := 0\<rparr>;
          lp3 = (if \<not> txbfd lp2 then lp2\<lparr>txbpr := 0, txbpi := 0\<rparr> else lp2)
      in (lp3\<lparr>xmte := True, dstb := False\<rparr>, tr2))"

section \<open>Receive side\<close>

text \<open>\<open>tmxr_getc_ln\<close>: the next received character with its flags, or 0.\<close>

definition tmxr_getc_ln :: "hdr \<Rightarrow> tmln \<Rightarrow> 32 word \<times> tmln" where
  "tmxr_getc_ln h lp =
     (let (val, lp1) =
            (if conn lp \<noteq> 0 \<and> rcve lp then
               (let j = rxbpi lp - rxbpr lp in
                if j \<noteq> 0 then
                  (let tmp = (scast (arr_get (rxb lp) (rxbpr lp) 0) :: 32 word);
                       val0 = TMXR_VALID h OR (tmp AND 0xFF);
                       val1 = (if arr_get (rbr lp) (rxbpr lp) False then val0 OR SCPE_BREAK h
                               else val0)
                   in (val1, lp\<lparr>rxbpr := rxbpr lp + 1\<rparr>))
                else (0, lp))
             else (0, lp))
      in if rxbpi lp1 = rxbpr lp1 then (val, lp1\<lparr>rxbpi := 0, rxbpr := 0\<rparr>) else (val, lp1))"

text \<open>
  \<open>tmxr_rmvrc\<close>: remove character \<open>p\<close> and its break status from the input buffer
  by moving what follows down one place.
\<close>

function rmvrc_loop :: "tmln \<Rightarrow> int \<Rightarrow> tmln" where
  "rmvrc_loop lp p =
     (if p < rxbpi lp then
        rmvrc_loop (lp\<lparr>rxb := arr_set (rxb lp) p (arr_get (rxb lp) (p + 1) 0),
                       rbr := arr_set (rbr lp) p (arr_get (rbr lp) (p + 1) False)\<rparr>) (p + 1)
      else lp)"
  by pat_completeness auto
termination
  by (relation "measure (\<lambda>(lp, p). nat (rxbpi lp - p))") auto

declare rmvrc_loop.simps [simp del]

definition tmxr_rmvrc :: "tmln \<Rightarrow> int \<Rightarrow> tmln" where
  "tmxr_rmvrc lp p = (let lp1 = rmvrc_loop lp p in lp1\<lparr>rxbpi := rxbpi lp1 - 1\<rparr>)"

text \<open>
  One turn of the loop of \<open>tmxr_poll_rx\<close> that examines the new data: the character
  at \<open>j\<close> is handled according to the Telnet state; the result is the line and the new
  \<open>j\<close>. In state \<open>TNS_IAC\<close> the inner switch has no default, so any other byte is
  removed with the state left as it is.
\<close>

definition tn_step :: "tmln \<Rightarrow> int \<Rightarrow> tmln \<times> int" where
  "tn_step lp j =
     (let tmp = arr_get (rxb lp) j 0 in
      if tsta lp = TNS_NORM then
        (if tmp = TN_IAC then (tmxr_rmvrc (lp\<lparr>tsta := TNS_IAC\<rparr>) j, j)
         else ((if tmp = TN_CR \<and> dstb lp then lp\<lparr>tsta := TNS_CRPAD\<rparr> else lp), j + 1))
      else if tsta lp = TNS_IAC then
        (if tmp = TN_IAC then (lp\<lparr>tsta := TNS_NORM\<rparr>, j + 1)
         else if tmp = TN_BRK then
           (lp\<lparr>tsta := TNS_NORM, rxb := arr_set (rxb lp) j 0, rbr := arr_set (rbr lp) j True\<rparr>,
            j + 1)
         else
           (let lp1 =
                  (if tmp = TN_WILL then lp\<lparr>tsta := TNS_WILL\<rparr>
                   else if tmp = TN_WONT then lp\<lparr>tsta := TNS_WONT\<rparr>
                   else if tmp = TN_DO then lp\<lparr>tsta := TNS_DO\<rparr>
                   else if tmp = TN_DONT then lp\<lparr>tsta := TNS_DONT\<rparr>
                   else if tmp \<in> {TN_GA, TN_EL, TN_EC, TN_AYT, TN_AO, TN_IP, TN_NOP}
                     then lp\<lparr>tsta := TNS_NORM\<rparr>
                   else if tmp \<in> {TN_SB, TN_DATAMK, TN_SE} then lp\<lparr>tsta := TNS_NORM\<rparr>
                   else lp)
            in (tmxr_rmvrc lp1 j, j)))
      else if tsta lp = TNS_WILL \<or> tsta lp = TNS_WONT then
        (let lp1 = (if tmp = TN_BIN
                    then (if tsta lp = TNS_WILL then lp\<lparr>dstb := False\<rparr> else lp\<lparr>dstb := True\<rparr>)
                    else lp)
         in ((tmxr_rmvrc lp1 j)\<lparr>tsta := TNS_NORM\<rparr>, j))
      else if tsta lp = TNS_CRPAD then
        (let lp1 = lp\<lparr>tsta := TNS_NORM\<rparr> in
         if tmp = TN_LF \<or> tmp = TN_NUL then (tmxr_rmvrc lp1 j, j) else (lp1, j))
      else ((tmxr_rmvrc lp j)\<lparr>tsta := TNS_NORM\<rparr>, j))"

text \<open>
  The removal loop changes the two arrays only, and one turn of the examination either
  consumes a character, removes one, or leaves state \<open>TNS_CRPAD\<close>: so the
  examination loop below terminates.
\<close>

lemma rmvrc_loop_frame:
  "rmvrc_loop lp p = lp\<lparr>rxb := rxb (rmvrc_loop lp p), rbr := rbr (rmvrc_loop lp p)\<rparr>"
proof (induction lp p rule: rmvrc_loop.induct)
  case (1 lp p)
  show ?case
  proof (cases "p < rxbpi lp")
    case True
    then show ?thesis
      using "1.IH" [OF True] by (subst (1 2 3) rmvrc_loop.simps) simp
  next
    case False
    then show ?thesis by (simp add: rmvrc_loop.simps)
  qed
qed

lemma rmvrc_loop_rxbpi [simp]: "rxbpi (rmvrc_loop lp p) = rxbpi lp"
  by (subst rmvrc_loop_frame) simp

lemma rmvrc_loop_tsta [simp]: "tsta (rmvrc_loop lp p) = tsta lp"
  by (subst rmvrc_loop_frame) simp

lemma rmvrc_rxbpi [simp]: "rxbpi (tmxr_rmvrc lp p) = rxbpi lp - 1"
  by (simp add: tmxr_rmvrc_def Let_def)

lemma rmvrc_tsta [simp]: "tsta (tmxr_rmvrc lp p) = tsta lp"
  by (simp add: tmxr_rmvrc_def Let_def)

lemma tn_step_decreases:
  assumes "j < rxbpi lp" and "tn_step lp j = (lp', j')"
  shows "rxbpi lp' - j' < rxbpi lp - j \<or>
         (rxbpi lp' - j' = rxbpi lp - j \<and> tsta lp = TNS_CRPAD \<and> tsta lp' \<noteq> TNS_CRPAD)"
  using assms
  by (auto simp: tn_step_def Let_def TNS_defs split: if_splits)

function filter_loop :: "tmln \<Rightarrow> int \<Rightarrow> tmln" where
  "filter_loop lp j =
     (if j < rxbpi lp then (case tn_step lp j of (lp', j') \<Rightarrow> filter_loop lp' j') else lp)"
  by pat_completeness auto
termination
proof (relation "measures [\<lambda>(lp, j). nat (rxbpi lp - j),
                           \<lambda>(lp, j). if tsta lp = TNS_CRPAD then 1 else 0]")
  show "wf (measures [\<lambda>(lp, j). nat (rxbpi lp - j),
                      \<lambda>(lp, j). if tsta lp = TNS_CRPAD then 1 else (0::nat)])"
    by simp
next
  fix lp lp' :: tmln and j j' :: int
  assume lt: "j < rxbpi lp" and p: "(lp', j') = tn_step lp j"
  have eq: "tn_step lp j = (lp', j')"
    using p by simp
  note d = tn_step_decreases [OF lt eq]
  show "((lp', j'), lp, j) \<in> measures [\<lambda>(lp, j). nat (rxbpi lp - j),
                                        \<lambda>(lp, j). if tsta lp = TNS_CRPAD then 1 else (0::nat)]"
    using d lt by auto
qed

declare filter_loop.simps [simp del]

text \<open>
  The body of the first loop of \<open>tmxr_poll_rx\<close> for one line: read when the buffer
  is at its start or a Telnet sequence is pending, reset the line when the read fails,
  otherwise clear the break flags of the new data, advance the insert pointer and the
  count, and examine the new data.
\<close>

definition poll_rx_ln :: "env \<Rightarrow> hdr \<Rightarrow> tmln \<Rightarrow> event list \<Rightarrow> tmln \<times> event list" where
  "poll_rx_ln e h lp tr =
     (if conn lp = 0 \<or> \<not> rcve lp then (lp, tr)
      else
        (let (r, tr1) =
               (if rxbpi lp = 0 then read_sock e (conn lp) (TMXR_MAXBUF h - TMXR_GUARD h) tr
                else if tsta lp \<noteq> 0 then read_sock e (conn lp) (TMXR_MAXBUF h - rxbpi lp) tr
                else (Some [], tr))
         in case r of
              None \<Rightarrow> tmxr_reset_ln e h lp tr1
            | Some bs \<Rightarrow>
                (let nbytes = int (length bs) in
                 if nbytes > 0 then
                   (let j = rxbpi lp;
                        lp1 = lp\<lparr>rxb := arr_blit (rxb lp) j bs,
                                 rbr := arr_blit (rbr lp) j (replicate (nat nbytes) False),
                                 rxbpi := rxbpi lp + nbytes,
                                 rxcnt := rxcnt lp + word_of_int nbytes\<rparr>
                    in (filter_loop lp1 j, tr1))
                 else (lp, tr1))))"

function poll_rx_loop :: "env \<Rightarrow> hdr \<Rightarrow> int \<Rightarrow> tmxr \<Rightarrow> event list \<Rightarrow> tmxr \<times> event list" where
  "poll_rx_loop e h i mp tr =
     (if i < lines mp then
        (let (lp1, tr1) = poll_rx_ln e h (ldsc mp ! nat i) tr
         in poll_rx_loop e h (i + 1) (mp\<lparr>ldsc := (ldsc mp)[nat i := lp1]\<rparr>) tr1)
      else (mp, tr))"
  by pat_completeness auto
termination
  by (relation "measure (\<lambda>(e, h, i, mp, tr). nat (lines mp - i))") auto

declare poll_rx_loop.simps [simp del]

text \<open>The second loop of \<open>tmxr_poll_rx\<close>: an empty buffer gets its pointers reset.\<close>

definition rewind_ln :: "tmln \<Rightarrow> tmln" where
  "rewind_ln lp = (if rxbpi lp = rxbpr lp then lp\<lparr>rxbpi := 0, rxbpr := 0\<rparr> else lp)"

function rewind_loop :: "int \<Rightarrow> tmxr \<Rightarrow> tmxr" where
  "rewind_loop i mp =
     (if i < lines mp then
        rewind_loop (i + 1) (mp\<lparr>ldsc := (ldsc mp)[nat i := rewind_ln (ldsc mp ! nat i)]\<rparr>)
      else mp)"
  by pat_completeness auto
termination
  by (relation "measure (\<lambda>(i, mp). nat (lines mp - i))") auto

declare rewind_loop.simps [simp del]

definition tmxr_poll_rx :: "env \<Rightarrow> hdr \<Rightarrow> tmxr \<Rightarrow> event list \<Rightarrow> tmxr \<times> event list" where
  "tmxr_poll_rx e h mp tr =
     (let (mp1, tr1) = poll_rx_loop e h 0 mp tr in (rewind_loop 0 mp1, tr1))"

section \<open>Accepting a connection\<close>

text \<open>
  The search of \<open>tmxr_poll_conn\<close> for a free line. \<open>k\<close> is how far the
  pointer \<open>op\<close> has moved into the order array, \<open>j\<close> the loop counter and
  \<open>i\<close> the candidate line; the result is the value of \<open>i\<close> after the loop.
  The order array has one entry per line and \<open>op\<close> moves at most once per turn, so
  the bound on \<open>k\<close> only guards the model's list.
\<close>

function scan_loop :: "tmxr \<Rightarrow> nat \<Rightarrow> int \<Rightarrow> int \<Rightarrow> int" where
  "scan_loop mp k j i =
     (if j < lines mp then
        (let (i1, k1) =
               (case lnorder mp of
                  Some ord \<Rightarrow>
                    (if k < length ord \<and> ord ! k \<ge> 0 \<and> ord ! k < lines mp
                     then (ord ! k, k + 1) else (j, k))
                | None \<Rightarrow> (j, k))
         in if conn (ldsc mp ! nat i1) = 0 then i1
            else scan_loop mp k1 (j + 1) (i1 + 1))
      else i)"
  by pat_completeness auto
termination
  by (relation "measure (\<lambda>(mp, k, j, i). nat (lines mp - j))") auto

declare scan_loop.simps [simp del]

text \<open>\<open>sprintf\<close> with \<open>%d\<close>.\<close>

function dec_digits :: "nat \<Rightarrow> byte list" where
  "dec_digits n =
     (if n < 10 then [of_nat (48 + n)] else dec_digits (n div 10) @ [of_nat (48 + n mod 10)])"
  by pat_completeness auto
termination
  by (relation "measure id") auto

declare dec_digits.simps [simp del]

definition fmt_d :: "int \<Rightarrow> byte list" where
  "fmt_d i = (if i < 0 then 0x2D # dec_digits (nat (- i)) else dec_digits (nat i))"

definition mantra :: "hdr \<Rightarrow> byte list" where
  "mantra h =
     (if VM_VAX h then
        [TN_IAC, TN_DONT, TN_LINE, TN_IAC, TN_WILL, TN_SGA, TN_IAC, TN_DO, TN_SGA,
         TN_IAC, TN_WILL, TN_ECHO, TN_IAC, TN_WILL, TN_BIN, TN_IAC, TN_DO, TN_BIN]
      else
        [TN_IAC, TN_WILL, TN_LINE, TN_IAC, TN_WILL, TN_SGA, TN_IAC, TN_WILL, TN_ECHO,
         TN_IAC, TN_WILL, TN_BIN, TN_IAC, TN_DO, TN_BIN])"

definition busy_msg :: "byte list" where
  "busy_msg = bytes_of ''All connections busy'' @ [0x0D, 0x0A]"

text \<open>The greeting; the fixed sizes of the C buffers that hold its parts are not modelled.\<close>

definition conn_msg :: "env \<Rightarrow> tmxr \<Rightarrow> int \<Rightarrow> byte list" where
  "conn_msg e mp i =
     (let cmsg = [0x0A, 0x0D, 0x0A] @ bytes_of ''Connected to the '' @ sim_name e
                 @ bytes_of '' simulator '';
          dmsg = (case dptr mp of Some nm \<Rightarrow> nm @ bytes_of '' device'' | None \<Rightarrow> []);
          lmsg = (if dptr mp \<noteq> None \<and> lines mp > 1 then bytes_of '', line '' @ fmt_d i else [])
      in cmsg @ dmsg @ lmsg @ [0x0D, 0x0A, 0x0A])"

text \<open>
  \<open>tmxr_poll_conn\<close>: the line number activated, \<open>-1\<close> if none. The greeting is
  put into the ring so that it ends at the end of the buffer, from \<open>txbsz - len\<close> on.
  On a ring shorter than the greeting that index is negative and the C code stores and
  sends from before the buffer, which the language leaves undefined; \<open>arr_set\<close> and
  \<open>arr_slice\<close> then drop the stores and start at the buffer, so the model says nothing
  about such a ring. \<open>greeting_fits\<close> below is the condition that rules it out.
\<close>

definition tmxr_poll_conn :: "env \<Rightarrow> hdr \<Rightarrow> tmxr \<Rightarrow> event list \<Rightarrow> int \<times> tmxr \<times> event list" where
  "tmxr_poll_conn e h mp tr =
     (let (newsock, ipaddr) = sim_accept_conn e tr (master mp);
          tr1 = tr @ [Accept (master mp) newsock ipaddr]
      in if newsock \<noteq> INVALID_SOCKET h then
           (let i = scan_loop mp 0 0 (lines mp) in
            if i \<ge> lines mp then
              (- 1, mp, close_sock newsock 0 (tmxr_msg e newsock busy_msg tr1))
            else
              (let lp = ldsc mp ! nat i;
                   lp1 = lp\<lparr>conn := newsock, ipad := ipaddr\<rparr>;
                   tr2 = snd (write_sock e newsock (mantra h) tr1);
                   msgbuf = conn_msg e mp i;
                   len = int (length msgbuf);
                   t = sim_os_msec e tr2;
                   tr3 = tr2 @ [Msec t];
                   lp2 = lp1\<lparr>cnms := t\<rparr>;
                   lp3 = (if buffered mp = 0 then
                            lp2\<lparr>txbpi := 0, txbpr := txbsz lp2 - len,
                                rxcnt := 0, txcnt := 0, txdrp := 0\<rparr>
                          else if sint (txcnt lp2) > txbsz lp2 then
                            lp2\<lparr>txbpr := (txbpi lp2 + 1) smod txbsz lp2\<rparr>
                          else lp2\<lparr>txbpr := txbsz lp2 - len\<rparr>);
                   lp4 = lp3\<lparr>tsta := 0, xmte := True, dstb := False\<rparr>;
                   psave = txbpi lp4;
                   lp5 = tmxr_linemsg h (lp4\<lparr>txbpi := txbpr lp4\<rparr>) msgbuf;
                   lp6 = lp5\<lparr>txbpi := psave\<rparr>;
                   (mp1, tr4) = tmxr_poll_tx e h (mp\<lparr>ldsc := (ldsc mp)[nat i := lp6]\<rparr>) tr3;
                   lp7 = ldsc mp1 ! nat i;
                   mp2 = mp1\<lparr>ldsc := (ldsc mp1)[nat i := lp7\<lparr>txcnt := txcnt lp7 - word_of_int len\<rparr>]\<rparr>
               in (i, mp2, tr4)))
         else (- 1, mp, tr1))"

section \<open>The console on a Telnet line (sim_console.cpp)\<close>

text \<open>
  The console multiplexer \<open>sim_con_tmxr\<close> has one line, \<open>sim_con_ldsc\<close>, which is
  its entry 0. \<open>sim_log\<close> is the simulator's log file. The console lock taken on entry
  serialises callers and has no part in a sequential model. \<open>sim_os_putchar\<close> differs
  by platform and is an oracle.
\<close>

record console =
  sim_con_tmxr :: tmxr
  sim_log :: "logfile option"

definition sim_con_ldsc :: "console \<Rightarrow> tmln" where
  "sim_con_ldsc cn = ldsc (sim_con_tmxr cn) ! 0"

definition set_con_ldsc :: "tmln \<Rightarrow> console \<Rightarrow> console" where
  "set_con_ldsc lp cn =
     cn\<lparr>sim_con_tmxr := (sim_con_tmxr cn)\<lparr>ldsc := (ldsc (sim_con_tmxr cn))[0 := lp]\<rparr>\<rparr>"

definition log_char :: "32 word \<Rightarrow> console \<Rightarrow> console" where
  "log_char c cn =
     (case sim_log cn of Some f \<Rightarrow> cn\<lparr>sim_log := Some (fputc (ucast c) f)\<rparr> | None \<Rightarrow> cn)"

definition os_putchar :: "env \<Rightarrow> 32 word \<Rightarrow> event list \<Rightarrow> t_stat \<times> event list" where
  "os_putchar e c tr = (let r = sim_os_putchar e tr c in (r, tr @ [OsPutchar c r]))"

text \<open>
  The statement \<open>if (tmxr_poll_conn (&sim_con_tmxr) >= 0) sim_con_ldsc.rcve = 1\<close>.
\<close>

definition con_poll_conn :: "env \<Rightarrow> hdr \<Rightarrow> console \<Rightarrow> event list \<Rightarrow> console \<times> event list" where
  "con_poll_conn e h cn tr =
     (let (r, mp1, tr1) = tmxr_poll_conn e h (sim_con_tmxr cn) tr;
          cn1 = cn\<lparr>sim_con_tmxr := mp1\<rparr>
      in if r \<ge> 0 then (set_con_ldsc ((sim_con_ldsc cn1)\<lparr>rcve := True\<rparr>) cn1, tr1)
         else (cn1, tr1))"

text \<open>\<open>sim_putchar\<close>: output a character; the status of \<open>tmxr_putc_ln\<close> is not used.\<close>

definition sim_putchar :: "env \<Rightarrow> hdr \<Rightarrow> 32 word \<Rightarrow> console \<Rightarrow> event list
    \<Rightarrow> t_stat \<times> console \<times> event list" where
  "sim_putchar e h c cn tr =
     (if master (sim_con_tmxr cn) = 0 then
        (let cn1 = log_char c cn; (r, tr1) = os_putchar e c tr in (r, cn1, tr1))
      else
        (let cn1 = (if sim_log cn \<noteq> None \<and> txlog (sim_con_ldsc cn) = None
                    then log_char c cn else cn)
         in if conn (sim_con_ldsc cn1) = 0 \<and> \<not> txbfd (sim_con_ldsc cn1) then (SCPE_LOST, cn1, tr)
            else
              (let (cn2, tr1) = (if conn (sim_con_ldsc cn1) = 0 then con_poll_conn e h cn1 tr
                                 else (cn1, tr));
                   (st, lp1) = tmxr_putc_ln h (sim_con_ldsc cn2) c;
                   cn3 = set_con_ldsc lp1 cn2;
                   (mp4, tr2) = tmxr_poll_tx e h (sim_con_tmxr cn3) tr1
               in (SCPE_OK, cn3\<lparr>sim_con_tmxr := mp4\<rparr>, tr2))))"

text \<open>\<open>sim_putchar_s\<close>: the same, returning the status of the Telnet output.\<close>

definition sim_putchar_s :: "env \<Rightarrow> hdr \<Rightarrow> 32 word \<Rightarrow> console \<Rightarrow> event list
    \<Rightarrow> t_stat \<times> console \<times> event list" where
  "sim_putchar_s e h c cn tr =
     (if master (sim_con_tmxr cn) = 0 then
        (let cn1 = log_char c cn; (r, tr1) = os_putchar e c tr in (r, cn1, tr1))
      else
        (let cn1 = (if sim_log cn \<noteq> None \<and> txlog (sim_con_ldsc cn) = None
                    then log_char c cn else cn)
         in if conn (sim_con_ldsc cn1) = 0 \<and> \<not> txbfd (sim_con_ldsc cn1) then (SCPE_LOST, cn1, tr)
            else
              (let (cn2, tr1) = (if conn (sim_con_ldsc cn1) = 0 then con_poll_conn e h cn1 tr
                                 else (cn1, tr));
                   (r, lp1) = (if \<not> xmte (sim_con_ldsc cn2) then (SCPE_STALL, sim_con_ldsc cn2)
                               else tmxr_putc_ln h (sim_con_ldsc cn2) c);
                   cn3 = set_con_ldsc lp1 cn2;
                   (mp4, tr2) = tmxr_poll_tx e h (sim_con_tmxr cn3) tr1
               in (r, cn3\<lparr>sim_con_tmxr := mp4\<rparr>, tr2))))"

section \<open>Well-formed lines and example values\<close>

text \<open>
  The transmit pointers of a line lie inside its buffer. \<open>tmxr_open_master\<close> sets up
  every line so, and the operations keep it.
\<close>

definition tx_wf :: "tmln \<Rightarrow> bool" where
  "tx_wf lp = (0 \<le> txbpi lp \<and> txbpi lp < txbsz lp \<and> 0 \<le> txbpr lp \<and> txbpr lp < txbsz lp)"

text \<open>
  Values for the header constants, used in the examples: buffers of 256 bytes with a
  guard of 12.
\<close>

definition hdr_ex :: hdr where
  "hdr_ex = \<lparr> TMXR_MAXBUF = 256, TMXR_GUARD = 12, TMXR_VALID = 0x8000, SCPE_BREAK = 0x2000,
              INVALID_SOCKET = - 1, SOCKET_ERROR = - 1, VM_VAX = True \<rparr>"

text \<open>A line as \<open>tmxr_open_master\<close> leaves it, unbuffered and without a log.\<close>

definition ln_idle :: tmln where
  "ln_idle = \<lparr> conn = 0, ipad = 0, cnms = 0, tsta = 0, rcve = False, xmte = True,
               dstb = False, rxbpr = 0, rxbpi = 0, rxcnt = 0, txbpr = 0, txbpi = 0,
               txcnt = 0, txdrp = 0, txbsz = 256, txbfd = False, txlog = None,
               rxb = replicate 256 0, rbr = replicate 256 False, txb = replicate 256 0 \<rparr>"

text \<open>A connected line that has just received a carriage return.\<close>

definition ln_cr :: tmln where
  "ln_cr = ln_idle\<lparr>conn := 5, rcve := True, rxb := (replicate 256 0)[0 := 0x0D], rxbpi := 1\<rparr>"

text \<open>A connected unbuffered line with 254 characters waiting: one more fits.\<close>

definition ln_254 :: tmln where
  "ln_254 = ln_idle\<lparr>conn := 5, txbpi := 254\<rparr>"

text \<open>A connected unbuffered line with room for three characters.\<close>

definition ln_252 :: tmln where
  "ln_252 = ln_idle\<lparr>conn := 5, txbpi := 252\<rparr>"

text \<open>A buffered line without connection whose buffer of 8 holds 7 characters: it is full.\<close>

definition ln_full8 :: tmln where
  "ln_full8 = ln_idle\<lparr>txbfd := True, txbsz := 8, txb := replicate 8 0, txbpi := 7\<rparr>"

text \<open>
  A console on Telnet whose line is connected and has no room left, and a socket layer
  that takes no data at the moment.
\<close>

definition con_ex :: console where
  "con_ex = \<lparr> sim_con_tmxr = \<lparr> lines = 1, port = 2323, master = 3,
                                 ldsc = [ln_idle\<lparr>conn := 5, rcve := True, txbpi := 255\<rparr>],
                                 lnorder = None, dptr = None, buffered = 0 \<rparr>,
              sim_log = None \<rparr>"

definition env_blocked :: env where
  "env_blocked = \<lparr> sim_accept_conn = (\<lambda>tr m. (- 1, 0)),
                   sim_write_sock = (\<lambda>tr s bs. - 1),
                   sim_read_sock = (\<lambda>tr s n. Some []),
                   sim_os_msec = (\<lambda>tr. 0),
                   sim_os_putchar = (\<lambda>tr c. SCPE_OK),
                   sim_name = bytes_of ''VAX'' \<rparr>"

text \<open>
  Two relations between a line before and after an operation: \<open>tx_only\<close> says that
  at most the remove pointer, the count of bytes sent and the transmit enable changed;
  \<open>rx_eq\<close> says that the connection, the Telnet state and the receive side are the same.
\<close>

definition tx_only :: "tmln \<Rightarrow> tmln \<Rightarrow> bool" where
  "tx_only lp lp' = (\<exists>p c x. lp' = lp\<lparr>txbpr := p, txcnt := c, xmte := x\<rparr>)"

definition rx_eq :: "tmln \<Rightarrow> tmln \<Rightarrow> bool" where
  "rx_eq lp lp' = (conn lp' = conn lp \<and> tsta lp' = tsta lp \<and> dstb lp' = dstb lp \<and>
     rcve lp' = rcve lp \<and> rxbpr lp' = rxbpr lp \<and> rxbpi lp' = rxbpi lp \<and>
     rxb lp' = rxb lp \<and> rbr lp' = rbr lp)"


text \<open>\<open>n\<close> successive calls of \<open>tmxr_getc_ln\<close>, collecting what they return.\<close>

fun getc_times :: "hdr \<Rightarrow> nat \<Rightarrow> tmln \<Rightarrow> 32 word list" where
  "getc_times h 0 lp = []"
| "getc_times h (Suc n) lp = (let (v, lp') = tmxr_getc_ln h lp in v # getc_times h n lp')"

text \<open>
  A socket layer that accepts a connection on socket 7 and takes all data offered; a
  connected line with nonzero statistics; a connected buffered line with three bytes
  waiting.
\<close>

definition env_open :: env where
  "env_open = \<lparr> sim_accept_conn = (\<lambda>tr m. (7, 0x7F000001)),
                sim_write_sock = (\<lambda>tr s bs. int (length bs)),
                sim_read_sock = (\<lambda>tr s n. Some []),
                sim_os_msec = (\<lambda>tr. 1000),
                sim_os_putchar = (\<lambda>tr c. SCPE_OK),
                sim_name = bytes_of ''VAX'' \<rparr>"

definition ln_used :: tmln where
  "ln_used = ln_idle\<lparr>conn := 5, rcve := True, rxcnt := 7, txcnt := 9, txdrp := 2\<rparr>"

definition ln_buf3 :: tmln where
  "ln_buf3 = ln_idle\<lparr>conn := 5, txbfd := True, txbsz := 8, txb := [1, 2, 3, 0, 0, 0, 0, 0],
                     txbpi := 3\<rparr>"

text \<open>The same line with a log that holds one unflushed byte.\<close>

definition ln_buf3_log :: tmln where
  "ln_buf3_log = ln_buf3\<lparr>txlog := Some \<lparr>flushed = [], pending = [0x41]\<rparr>\<rparr>"


text \<open>
  A socket layer that accepts a connection on socket 5, takes all data offered and
  delivers the four bytes 41 0D 0A 42 to a read; the same with the bytes 41 FF F3 42.
\<close>

definition env_crlf :: env where
  "env_crlf = \<lparr> sim_accept_conn = (\<lambda>tr m. (5, 0x7F000001)),
                sim_write_sock = (\<lambda>tr s bs. int (length bs)),
                sim_read_sock = (\<lambda>tr s n. Some [0x41, 0x0D, 0x0A, 0x42]),
                sim_os_msec = (\<lambda>tr. 1000),
                sim_os_putchar = (\<lambda>tr c. SCPE_OK),
                sim_name = bytes_of ''VAX'' \<rparr>"

definition env_brk :: env where
  "env_brk = env_crlf\<lparr>sim_read_sock := (\<lambda>tr s n. Some [0x41, 0xFF, 0xF3, 0x42])\<rparr>"

text \<open>
  The greeting fits in the transmit ring of line \<open>i\<close>, the ring lies inside its
  buffer and its insert pointer inside the ring: then every store and every write that
  \<open>tmxr_poll_conn\<close> makes for the greeting is within the buffer.
\<close>

definition greeting_fits :: "env \<Rightarrow> tmxr \<Rightarrow> int \<Rightarrow> bool" where
  "greeting_fits e mp i =
     (let lp = ldsc mp ! nat i
      in int (length (conn_msg e mp i)) \<le> txbsz lp \<and> txbsz lp \<le> int (length (txb lp)) \<and>
         0 \<le> txbpi lp \<and> txbpi lp < txbsz lp)"

text \<open>A multiplexer with one idle line, and the same with the line connected.\<close>

definition mux1 :: tmxr where
  "mux1 = \<lparr> lines = 1, port = 2323, master = 3, ldsc = [ln_idle], lnorder = None,
            dptr = None, buffered = 0 \<rparr>"

definition mux1_conn :: tmxr where
  "mux1_conn = mux1\<lparr>ldsc := [ln_idle\<lparr>conn := 5, rcve := True\<rparr>]\<rparr>"

text \<open>
  A socket layer like \<open>env_crlf\<close> whose peer first refuses binary mode: a read delivers
  IAC WONT BIN and then the four bytes 41 0D 0A 42.
\<close>

definition env_wontbin :: env where
  "env_wontbin =
     env_crlf\<lparr>sim_read_sock := (\<lambda>tr s n. Some [0xFF, 0xFC, 0x00, 0x41, 0x0D, 0x0A, 0x42])\<rparr>"

text \<open>A connected line that holds the unfiltered bytes 41 FF F3 42.\<close>

definition ln_brk :: tmln where
  "ln_brk = ln_idle\<lparr>conn := 5, rcve := True, rxbpi := 4,
                    rxb := [0x41, 0xFF, 0xF3, 0x42] @ replicate 252 0\<rparr>"

text \<open>
  The result of \<open>tmxr_poll_conn\<close> on the idle multiplexer, with either socket layer,
  and the assignment \<open>rcve = 1\<close> that the callers of \<open>tmxr_poll_conn\<close> make for
  the line it returns.
\<close>

definition accepted :: "int \<times> tmxr \<times> event list" where
  "accepted = tmxr_poll_conn env_crlf hdr_ex mux1 []"

definition accepted_wontbin :: "int \<times> tmxr \<times> event list" where
  "accepted_wontbin = tmxr_poll_conn env_wontbin hdr_ex mux1 []"

definition rcv_enabled :: "tmxr \<Rightarrow> int \<Rightarrow> tmxr" where
  "rcv_enabled mp i = mp\<lparr>ldsc := (ldsc mp)[nat i := (ldsc mp ! nat i)\<lparr>rcve := True\<rparr>]\<rparr>"

text \<open>
  A multiplexer of two lines, both connected, with the connection order 1;0 as
  \<open>tmxr_set_lnorder\<close> stores it.
\<close>

definition mux_busy :: tmxr where
  "mux_busy = \<lparr> lines = 2, port = 2323, master = 3,
                ldsc = [ln_idle\<lparr>conn := 5\<rparr>, ln_idle\<lparr>conn := 6\<rparr>],
                lnorder = Some [1, 0], dptr = None, buffered = 0 \<rparr>"


text \<open>
  The bytes a socket has taken, read off the trace: of each write to the socket, as many
  bytes as the socket layer said it wrote.
\<close>

fun sent_to :: "int \<Rightarrow> event list \<Rightarrow> byte list" where
  "sent_to s [] = []"
| "sent_to s (Write s' bs r # tr) =
     (if s' = s \<and> r > 0 then take (nat r) bs else []) @ sent_to s tr"
| "sent_to s (ev # tr) = sent_to s tr"

text \<open>A connected unbuffered line with an empty transmit ring.\<close>

definition ln_conn :: tmln where
  "ln_conn = ln_idle\<lparr>conn := 5, rcve := True\<rparr>"

section \<open>Properties of the console character conversion\<close>

text \<open>A masked character is never the value -1 that stands for a dropped one.\<close>

lemma mask7_not_dropped: "c AND 0x7F \<noteq> (- 1 :: 32 word)"
proof
  assume "c AND 0x7F = - 1"
  then have "bit (c AND 0x7F) 7 = bit (- 1 :: 32 word) 7" by simp
  then show False by (simp add: bit_simps)
qed

lemma mask8_not_dropped: "c AND 0xFF \<noteq> (- 1 :: 32 word)"
proof
  assume "c AND 0xFF = - 1"
  then have "bit (c AND 0xFF) 8 = bit (- 1 :: 32 word) 8" by simp
  then show False by (simp add: bit_simps)
qed

text \<open>
  C9, as stated: in 7B mode the character 0x7F is dropped. It is not: the drop test is
  guarded by the mode being UC or 7P, so 7B returns 0x7F itself.
\<close>

theorem outcvt_7b_del_counterexample:
  "sim_tt_outcvt ttuf_std 0x2780 0x7F 0 = 0x7F \<and> sim_tt_outcvt ttuf_std 0x2780 0x7F 0 \<noteq> - 1"
  by (simp add: sim_tt_outcvt_def ttuf_std_def)

text \<open>
  C9, amended: in 7B mode \<open>sim_tt_outcvt\<close> returns the character masked to 7 bits for
  every input, 0x7F included; nothing is dropped in that mode. The character 0x7F is
  dropped, the result being -1, in the modes UC and 7P, and the result is -1 in no other
  mode: in 8B mode the character is masked to 8 bits. The mode constants are assumed to
  differ as far as the tests of the code tell them apart.
\<close>

theorem outcvt_7b_masks:
  assumes "TTUF_MODE_7B k \<noteq> TTUF_MODE_8B k"
    and "TTUF_MODE_7B k \<noteq> TTUF_MODE_UC k"
    and "TTUF_MODE_7B k \<noteq> TTUF_MODE_7P k"
    and "TTUF_MODE_UC k \<noteq> TTUF_MODE_8B k"
    and "TTUF_MODE_7P k \<noteq> TTUF_MODE_8B k"
  shows "(mode AND TTUF_M_MODE k = TTUF_MODE_7B k \<longrightarrow>
            sim_tt_outcvt k pchar c mode = c AND 0x7F \<and> sim_tt_outcvt k pchar c mode \<noteq> - 1) \<and>
         ((mode AND TTUF_M_MODE k = TTUF_MODE_UC k \<or> mode AND TTUF_M_MODE k = TTUF_MODE_7P k) \<and>
          c AND 0x7F = 0x7F \<longrightarrow> sim_tt_outcvt k pchar c mode = - 1) \<and>
         (mode AND TTUF_M_MODE k = TTUF_MODE_8B k \<longrightarrow> sim_tt_outcvt k pchar c mode = c AND 0xFF) \<and>
         (sim_tt_outcvt k pchar c mode = - 1 \<longrightarrow>
            mode AND TTUF_M_MODE k = TTUF_MODE_UC k \<or> mode AND TTUF_M_MODE k = TTUF_MODE_7P k)"
proof (intro conjI impI)
  assume m: "mode AND TTUF_M_MODE k = TTUF_MODE_7B k"
  show e: "sim_tt_outcvt k pchar c mode = c AND 0x7F"
    using assms m by (simp add: sim_tt_outcvt_def Let_def)
  show "sim_tt_outcvt k pchar c mode \<noteq> - 1"
    unfolding e by (rule mask7_not_dropped)
next
  assume "(mode AND TTUF_M_MODE k = TTUF_MODE_UC k \<or> mode AND TTUF_M_MODE k = TTUF_MODE_7P k) \<and>
          c AND 0x7F = 0x7F"
  then show "sim_tt_outcvt k pchar c mode = - 1"
    using assms by (auto simp: sim_tt_outcvt_def Let_def islower_c_def)
next
  assume "mode AND TTUF_M_MODE k = TTUF_MODE_8B k"
  then show "sim_tt_outcvt k pchar c mode = c AND 0xFF"
    by (simp add: sim_tt_outcvt_def Let_def)
next
  assume d: "sim_tt_outcvt k pchar c mode = - 1"
  show "mode AND TTUF_M_MODE k = TTUF_MODE_UC k \<or> mode AND TTUF_M_MODE k = TTUF_MODE_7P k"
  proof (rule ccontr)
    assume n: "\<not> (mode AND TTUF_M_MODE k = TTUF_MODE_UC k \<or> mode AND TTUF_M_MODE k = TTUF_MODE_7P k)"
    then have "sim_tt_outcvt k pchar c mode = c AND 0x7F \<or> sim_tt_outcvt k pchar c mode = c AND 0xFF"
      by (auto simp: sim_tt_outcvt_def Let_def)
    then show False
      using d mask7_not_dropped [of c] mask8_not_dropped [of c] by auto
  qed
qed

text \<open>
  With the example constants: 0xFF comes out as 0x7F in 7B mode and is dropped in UC mode,
  0x7F is dropped in 7P mode, and 8B mode keeps the low 8 bits.
\<close>

theorem outcvt_7b_masks_witness:
  "sim_tt_outcvt ttuf_std 0x2780 0xFF 0 = 0x7F \<and>
   sim_tt_outcvt ttuf_std 0x2780 0xFF 0 \<noteq> - 1 \<and>
   sim_tt_outcvt ttuf_std 0x2780 0xFF 2 = - 1 \<and>
   sim_tt_outcvt ttuf_std 0x2780 0x7F 3 = - 1 \<and>
   sim_tt_outcvt ttuf_std 0x2780 0x17F 1 = 0x7F \<and>
   (2 :: 32 word) AND TTUF_M_MODE ttuf_std = TTUF_MODE_UC ttuf_std"
  using outcvt_7b_masks [of ttuf_std 0 "0x2780" "0xFF"]
    outcvt_7b_masks [of ttuf_std 2 "0x2780" "0xFF"]
    outcvt_7b_masks [of ttuf_std 3 "0x2780" "0x7F"]
    outcvt_7b_masks [of ttuf_std 1 "0x2780" "0x17F"]
  by (simp add: ttuf_std_def)

section \<open>Properties of the transmit ring\<close>

lemma wrap_inc:
  "0 \<le> a \<Longrightarrow> a < b \<Longrightarrow> (a + 1) smod b = (if a + 1 = b then 0 else a + 1)" for a b :: int
  by (auto simp: signed_modulo_int_def sgn_if)

lemma wrap_inc':
  "0 \<le> a \<Longrightarrow> a < b \<Longrightarrow> (1 + a) smod b = (if a + 1 = b then 0 else a + 1)" for a b :: int
  using wrap_inc [of a b] by (simp add: add.commute)

lemma wrap2: "((a + 1) mod b + 1) mod b = (a + 2) mod b" for a b :: int
  by (simp add: mod_simps add.commute)

lemma tqln_bounds: "tx_wf lp \<Longrightarrow> 0 \<le> tmxr_tqln lp \<and> tmxr_tqln lp \<le> txbsz lp - 1"
  by (auto simp: tx_wf_def tmxr_tqln_def)

text \<open>
  What \<open>TXBUF_CHAR\<close> does to a well-formed line: the character goes to the insert
  pointer, which advances with wrap-around; when the ring already held \<open>txbsz - 1\<close>
  characters the remove pointer advances too and the drop is counted.
\<close>

lemma TXBUF_CHAR_eq:
  assumes "tx_wf lp"
  shows "TXBUF_CHAR lp c =
    (let pi' = (if txbpi lp + 1 = txbsz lp then 0 else txbpi lp + 1) in
     if tmxr_tqln lp = txbsz lp - 1
     then lp\<lparr>txb := arr_set (txb lp) (txbpi lp) c, txbpi := pi',
              txbpr := (if txbpr lp + 1 = txbsz lp then 0 else txbpr lp + 1),
              txdrp := txdrp lp + 1\<rparr>
     else lp\<lparr>txb := arr_set (txb lp) (txbpi lp) c, txbpi := pi'\<rparr>)"
  using assms
  by (auto simp: TXBUF_CHAR_def Let_def tx_wf_def wrap_inc wrap_inc' tmxr_tqln_def)

lemma TXBUF_CHAR_wf: "tx_wf lp \<Longrightarrow> tx_wf (TXBUF_CHAR lp c)"
  by (auto simp: TXBUF_CHAR_eq Let_def) (auto simp: tx_wf_def)

lemma TXBUF_CHAR_tqln:
  "tx_wf lp \<Longrightarrow> tmxr_tqln (TXBUF_CHAR lp c) =
     (if tmxr_tqln lp = txbsz lp - 1 then txbsz lp - 1 else tmxr_tqln lp + 1)"
  by (auto simp: TXBUF_CHAR_eq Let_def) (auto simp: tx_wf_def tmxr_tqln_def split: if_splits)

lemma TXBUF_CHAR_pr:
  "tx_wf lp \<Longrightarrow> txbpr (TXBUF_CHAR lp c) =
     (txbpr lp + (if tmxr_tqln lp = txbsz lp - 1 then 1 else 0)) mod txbsz lp"
  by (auto simp: TXBUF_CHAR_eq Let_def tx_wf_def)

lemma TXBUF_CHAR_pi:
  "tx_wf lp \<Longrightarrow> txbpi (TXBUF_CHAR lp c) = (txbpi lp + 1) mod txbsz lp"
  by (auto simp: TXBUF_CHAR_eq Let_def tx_wf_def)

lemma TXBUF_CHAR_drp:
  "tx_wf lp \<Longrightarrow> txdrp (TXBUF_CHAR lp c) =
     txdrp lp + (if tmxr_tqln lp = txbsz lp - 1 then 1 else 0)"
  by (auto simp: TXBUF_CHAR_eq Let_def)

lemma TXBUF_CHAR_txb:
  "tx_wf lp \<Longrightarrow> txb (TXBUF_CHAR lp c) = arr_set (txb lp) (txbpi lp) c"
  by (auto simp: TXBUF_CHAR_eq Let_def)

lemma TXBUF_CHAR_same [simp]:
  "txbsz (TXBUF_CHAR lp c) = txbsz lp" "txbfd (TXBUF_CHAR lp c) = txbfd lp"
  "conn (TXBUF_CHAR lp c) = conn lp" "xmte (TXBUF_CHAR lp c) = xmte lp"
  "txlog (TXBUF_CHAR lp c) = txlog lp" "txcnt (TXBUF_CHAR lp c) = txcnt lp"
  by (simp_all add: TXBUF_CHAR_def Let_def)

lemma putc_log_same [simp]:
  "txbfd (putc_log lp chr) = txbfd lp" "txbpr (putc_log lp chr) = txbpr lp"
  "txbpi (putc_log lp chr) = txbpi lp" "txbsz (putc_log lp chr) = txbsz lp"
  "txdrp (putc_log lp chr) = txdrp lp" "conn (putc_log lp chr) = conn lp"
  "txb (putc_log lp chr) = txb lp" "xmte (putc_log lp chr) = xmte lp"
  "tmxr_tqln (putc_log lp chr) = tmxr_tqln lp" "tx_wf (putc_log lp chr) = tx_wf lp"
  "TXBUF_AVAIL (putc_log lp chr) = TXBUF_AVAIL lp"
  by (auto simp: putc_log_def tmxr_tqln_def tx_wf_def TXBUF_AVAIL_def split: option.splits)

lemma guard_same [simp]:
  "txbpr (if b then lp\<lparr>xmte := False\<rparr> else lp) = txbpr lp"
  "txbpi (if b then lp\<lparr>xmte := False\<rparr> else lp) = txbpi lp"
  "txdrp (if b then lp\<lparr>xmte := False\<rparr> else lp) = txdrp lp"
  "txb (if b then lp\<lparr>xmte := False\<rparr> else lp) = txb lp"
  "tmxr_tqln (if b then lp\<lparr>xmte := False\<rparr> else lp) = tmxr_tqln lp"
  by (auto simp: tmxr_tqln_def)

text \<open>The two outcomes of \<open>tmxr_putc_ln\<close> on a line that is buffered or connected.\<close>

lemma putc_store:
  assumes "txbfd lp \<or> (conn lp \<noteq> 0 \<and> TXBUF_AVAIL lp > 1)"
  shows "tmxr_putc_ln h lp chr =
    (let lp1 = (if TN_IAC = ucast chr then TXBUF_CHAR (putc_log lp chr) TN_IAC else putc_log lp chr);
         lp2 = TXBUF_CHAR lp1 (ucast chr)
     in (SCPE_OK, if \<not> txbfd lp \<and> TXBUF_AVAIL lp2 \<le> TMXR_GUARD h then lp2\<lparr>xmte := False\<rparr> else lp2))"
  using assms unfolding tmxr_putc_ln_def
  by (auto simp: Let_def)

lemma putc_stall:
  assumes "\<not> txbfd lp" "conn lp \<noteq> 0" "TXBUF_AVAIL lp \<le> 1"
  shows "tmxr_putc_ln h lp chr =
     (SCPE_STALL, (putc_log lp chr)\<lparr>txdrp := txdrp lp + 1, xmte := False\<rparr>)"
  using assms unfolding tmxr_putc_ln_def
  by (auto simp: Let_def)

text \<open>
  The pointers and the drop count after a character was stored: \<open>n\<close> is the count of
  bytes written, \<open>ev\<close> the count of bytes that found the ring full.
\<close>

lemma putc_store_ring:
  assumes st: "txbfd lp \<or> (conn lp \<noteq> 0 \<and> TXBUF_AVAIL lp > 1)" and wf: "tx_wf lp"
  shows "let lp' = snd (tmxr_putc_ln h lp chr);
             n = (if TN_IAC = ucast chr then 2 else 1);
             ev = max 0 (tmxr_tqln lp + n - (txbsz lp - 1))
         in txbpr lp' = (txbpr lp + ev) mod txbsz lp \<and>
            txdrp lp' = txdrp lp + word_of_int ev \<and>
            tmxr_tqln lp' = tmxr_tqln lp + n - ev"
proof -
  note b = tqln_bounds [OF wf]
  show ?thesis
  proof (cases "TN_IAC = (ucast chr :: byte)")
    case False
    show ?thesis
    proof (cases "tmxr_tqln lp = txbsz lp - 1")
      case True
      then have "max 0 (tmxr_tqln lp + 1 - (txbsz lp - 1)) = 1" by simp
      then show ?thesis
        using st wf True False
        by (simp add: putc_store Let_def TXBUF_CHAR_pr TXBUF_CHAR_drp TXBUF_CHAR_tqln)
    next
      case F: False
      then have "max 0 (tmxr_tqln lp + 1 - (txbsz lp - 1)) = 0" using b by simp
      then show ?thesis
        using st wf F False
        by (simp add: putc_store Let_def TXBUF_CHAR_pr TXBUF_CHAR_drp TXBUF_CHAR_tqln)
    qed
  next
    case True
    have wf1: "tx_wf (TXBUF_CHAR (putc_log lp chr) TN_IAC)"
      using wf by (simp add: TXBUF_CHAR_wf)
    consider (full) "tmxr_tqln lp = txbsz lp - 1"
      | (one) "tmxr_tqln lp = txbsz lp - 2"
      | (room) "tmxr_tqln lp < txbsz lp - 2"
      using b by linarith
    then show ?thesis
    proof cases
      case full
      then have "max 0 (tmxr_tqln lp + 2 - (txbsz lp - 1)) = 2" by simp
      then show ?thesis
        using st wf wf1 True full
        by (simp add: putc_store Let_def TXBUF_CHAR_pr TXBUF_CHAR_drp TXBUF_CHAR_tqln wrap2)
    next
      case one
      then have "max 0 (tmxr_tqln lp + 2 - (txbsz lp - 1)) = 1" by simp
      then show ?thesis
        using st wf wf1 True one
        by (simp add: putc_store Let_def TXBUF_CHAR_pr TXBUF_CHAR_drp TXBUF_CHAR_tqln
              mod_add_left_eq)
    next
      case room
      then have "max 0 (tmxr_tqln lp + 2 - (txbsz lp - 1)) = 0" by simp
      then show ?thesis
        using st wf wf1 True room
        by (simp add: putc_store Let_def TXBUF_CHAR_pr TXBUF_CHAR_drp TXBUF_CHAR_tqln
              mod_add_left_eq)
    qed
  qed
qed

lemma putc_store_content:
  assumes st: "txbfd lp \<or> (conn lp \<noteq> 0 \<and> TXBUF_AVAIL lp > 1)" and wf: "tx_wf lp"
  shows "txb (snd (tmxr_putc_ln h lp chr)) =
           (if TN_IAC = ucast chr
            then arr_set (arr_set (txb lp) (txbpi lp) TN_IAC) ((txbpi lp + 1) mod txbsz lp) TN_IAC
            else arr_set (txb lp) (txbpi lp) (ucast chr))"
    and "txbpi (snd (tmxr_putc_ln h lp chr)) =
           (txbpi lp + (if TN_IAC = ucast chr then 2 else 1)) mod txbsz lp"
proof -
  have wf1: "tx_wf (TXBUF_CHAR (putc_log lp chr) TN_IAC)"
    using wf by (simp add: TXBUF_CHAR_wf)
  show "txb (snd (tmxr_putc_ln h lp chr)) =
           (if TN_IAC = ucast chr
            then arr_set (arr_set (txb lp) (txbpi lp) TN_IAC) ((txbpi lp + 1) mod txbsz lp) TN_IAC
            else arr_set (txb lp) (txbpi lp) (ucast chr))"
    using st wf wf1 by (auto simp: putc_store Let_def TXBUF_CHAR_txb TXBUF_CHAR_pi)
  show "txbpi (snd (tmxr_putc_ln h lp chr)) =
           (txbpi lp + (if TN_IAC = ucast chr then 2 else 1)) mod txbsz lp"
    using st wf wf1 by (auto simp: putc_store Let_def TXBUF_CHAR_pi wrap2)
qed

section \<open>Claims about \<open>tmxr_putc_ln\<close>\<close>

text \<open>
  C5: on a line in buffered mode \<open>tmxr_putc_ln\<close> returns \<open>SCPE_OK\<close> for every
  character, never a stall. On a well-formed line each byte written into a full ring (one
  holding \<open>txbsz - 1\<close> bytes) evicts the oldest byte: the remove pointer advances by one
  with wrap-around and \<open>txdrp\<close> grows by one, per evicted byte. An IAC writes two bytes
  and so may evict two.
\<close>

theorem putc_buffered_never_stalls:
  assumes "txbfd lp"
  shows "fst (tmxr_putc_ln h lp chr) = SCPE_OK \<and>
    (tx_wf lp \<longrightarrow>
      (let lp' = snd (tmxr_putc_ln h lp chr);
           n = (if TN_IAC = ucast chr then 2 else 1);
           ev = max 0 (tmxr_tqln lp + n - (txbsz lp - 1))
       in txbpr lp' = (txbpr lp + ev) mod txbsz lp \<and>
          txdrp lp' = txdrp lp + word_of_int ev \<and>
          tmxr_tqln lp' = tmxr_tqln lp + n - ev))"
  using assms putc_store_ring [of lp h chr] by (simp add: putc_store Let_def)

text \<open>A full buffered ring of size 8 takes the letter A and evicts one byte.\<close>

theorem putc_buffered_never_stalls_witness:
  "txbfd ln_full8 \<and> tx_wf ln_full8 \<and> tmxr_tqln ln_full8 = txbsz ln_full8 - 1 \<and>
   fst (tmxr_putc_ln hdr_ex ln_full8 0x41) = SCPE_OK \<and>
   txbpr (snd (tmxr_putc_ln hdr_ex ln_full8 0x41)) = 1 \<and>
   txdrp (snd (tmxr_putc_ln hdr_ex ln_full8 0x41)) = 1 \<and>
   tmxr_tqln (snd (tmxr_putc_ln hdr_ex ln_full8 0x41)) = 7"
proof -
  have f: "txbfd ln_full8" "tx_wf ln_full8" "tmxr_tqln ln_full8 = 7" "txbsz ln_full8 = 8"
    "txbpr ln_full8 = 0" "txdrp ln_full8 = 0"
    by (simp_all add: ln_full8_def ln_idle_def tx_wf_def tmxr_tqln_def)
  show ?thesis
    using putc_buffered_never_stalls [of ln_full8 hdr_ex "0x41"]
    by (simp add: f Let_def TN_defs)
qed

text \<open>
  A character stored where there is room for it: nothing is evicted, the bytes go to the
  insert pointer and the place after it.
\<close>

lemma putc_room:
  assumes "conn lp \<noteq> 0" and "tx_wf lp"
  shows "(TN_IAC = ucast chr \<and> tmxr_tqln lp + 2 \<le> txbsz lp - 1 \<longrightarrow>
            (let r = tmxr_putc_ln h lp chr; lp' = snd r in
             fst r = SCPE_OK \<and>
             txb lp' = arr_set (arr_set (txb lp) (txbpi lp) 0xFF) ((txbpi lp + 1) mod txbsz lp) 0xFF \<and>
             txbpi lp' = (txbpi lp + 2) mod txbsz lp \<and>
             txbpr lp' = txbpr lp \<and> txdrp lp' = txdrp lp \<and>
             tmxr_tqln lp' = tmxr_tqln lp + 2)) \<and>
         (TN_IAC \<noteq> ucast chr \<and> tmxr_tqln lp + 1 \<le> txbsz lp - 1 \<longrightarrow>
            (let r = tmxr_putc_ln h lp chr; lp' = snd r in
             fst r = SCPE_OK \<and>
             txb lp' = arr_set (txb lp) (txbpi lp) (ucast chr) \<and>
             txbpi lp' = (txbpi lp + 1) mod txbsz lp \<and>
             txbpr lp' = txbpr lp \<and> txdrp lp' = txdrp lp \<and>
             tmxr_tqln lp' = tmxr_tqln lp + 1))"
proof -
  have pr: "0 \<le> txbpr lp" "txbpr lp < txbsz lp"
    using assms(2) by (auto simp: tx_wf_def)
  show ?thesis
  proof (intro conjI impI)
    assume a: "TN_IAC = ucast chr \<and> tmxr_tqln lp + 2 \<le> txbsz lp - 1"
    then have st: "txbfd lp \<or> (conn lp \<noteq> 0 \<and> TXBUF_AVAIL lp > 1)"
      using assms(1) by (simp add: TXBUF_AVAIL_def)
    have ev: "max 0 (tmxr_tqln lp + 2 - (txbsz lp - 1)) = 0"
      using a by simp
    have c2: "TN_IAC = (0xFF :: byte)"
      by (simp add: TN_IAC_def)
    from a have "(ucast chr :: byte) = TN_IAC"
      by simp
    then have c1: "(ucast chr :: byte) = 0xFF"
      by (simp only: c2)
    note c = c1 c2
    have ok: "fst (tmxr_putc_ln h lp chr) = SCPE_OK"
      using putc_store [OF st, of h chr] by (simp add: Let_def)
    show "let r = tmxr_putc_ln h lp chr; lp' = snd r in
             fst r = SCPE_OK \<and>
             txb lp' = arr_set (arr_set (txb lp) (txbpi lp) 0xFF) ((txbpi lp + 1) mod txbsz lp) 0xFF \<and>
             txbpi lp' = (txbpi lp + 2) mod txbsz lp \<and>
             txbpr lp' = txbpr lp \<and> txdrp lp' = txdrp lp \<and>
             tmxr_tqln lp' = tmxr_tqln lp + 2"
      using putc_store_ring [OF st assms(2), of h chr] putc_store_content [OF st assms(2), of h chr]
        ok ev pr
      by (simp add: Let_def c)
  next
    assume a: "TN_IAC \<noteq> ucast chr \<and> tmxr_tqln lp + 1 \<le> txbsz lp - 1"
    then have st: "txbfd lp \<or> (conn lp \<noteq> 0 \<and> TXBUF_AVAIL lp > 1)"
      using assms(1) by (simp add: TXBUF_AVAIL_def)
    have ev: "max 0 (tmxr_tqln lp + 1 - (txbsz lp - 1)) = 0"
      using a by simp
    have ok: "fst (tmxr_putc_ln h lp chr) = SCPE_OK"
      using putc_store [OF st, of h chr] by (simp add: Let_def)
    show "let r = tmxr_putc_ln h lp chr; lp' = snd r in
             fst r = SCPE_OK \<and>
             txb lp' = arr_set (txb lp) (txbpi lp) (ucast chr) \<and>
             txbpi lp' = (txbpi lp + 1) mod txbsz lp \<and>
             txbpr lp' = txbpr lp \<and> txdrp lp' = txdrp lp \<and>
             tmxr_tqln lp' = tmxr_tqln lp + 1"
      using putc_store_ring [OF st assms(2), of h chr] putc_store_content [OF st assms(2), of h chr]
        ok a ev pr
      by (simp add: Let_def)
  qed
qed


text \<open>
  What the next \<open>tmxr_send_buffered_data\<close> writes when an IAC was put into an empty
  ring and the socket takes all it is offered: the two bytes 0xFF, in one write, or in two
  when the ring wraps between them.
\<close>

lemma sent_to_append: "sent_to s (a @ b) = sent_to s a @ sent_to s b"
  by (induction s a rule: sent_to.induct) auto

lemma slice_two:
  assumes "0 \<le> p" "p + 2 \<le> int (length xs)"
  shows "arr_slice (arr_set (arr_set xs p a) (p + 1) b) p 2 = [a, b]"
proof -
  obtain n where n: "p = int n" using assms(1) by (metis nat_0_le)
  have l: "n + 2 \<le> length xs" using assms(2) n by simp
  have "take 2 (drop n (xs[n := a, Suc n := b])) = [a, b]"
    using l by (auto simp: list_eq_iff_nth_eq nth_list_update less_Suc_eq numeral_2_eq_2)
  then show ?thesis
    using n by (simp add: arr_slice_def arr_set_def nat_add_distrib)
qed

lemma take1_drop:
  "n < length ys \<Longrightarrow> take (Suc 0) (drop n ys) = [ys ! n]"
  by (simp add: Cons_nth_drop_Suc [symmetric])

lemma slice_one:
  assumes "0 < p" "p < int (length xs)"
  shows "arr_slice (arr_set (arr_set xs p a) 0 b) p 1 = [a]"
    and "arr_slice (arr_set (arr_set xs p a) 0 b) 0 1 = [b]"
proof -
  obtain n where n: "p = int n" using assms(1) by (metis nat_0_le less_imp_le)
  have l: "n < length xs" "0 < n" using assms n by simp_all
  have "take (Suc 0) (drop n (xs[n := a, 0 := b])) = [a]"
    using l by (subst take1_drop) simp_all
  then show "arr_slice (arr_set (arr_set xs p a) 0 b) p 1 = [a]"
    using n by (simp add: arr_slice_def arr_set_def)
  have "take (Suc 0) (drop 0 (xs[n := a, 0 := b])) = [b]"
    using l by (cases xs; cases n) simp_all
  then show "arr_slice (arr_set (arr_set xs p a) 0 b) 0 1 = [b]"
    using n by (simp add: arr_slice_def arr_set_def)
qed

lemma putc_txbsz [simp]: "txbsz (snd (tmxr_putc_ln h lp chr)) = txbsz lp"
  by (simp add: tmxr_putc_ln_def Let_def)

lemma putc_conn [simp]: "conn (snd (tmxr_putc_ln h lp chr)) = conn lp"
  by (simp add: tmxr_putc_ln_def Let_def TXBUF_CHAR_def putc_log_def split: option.splits)

lemma putc_iac_wire:
  assumes c: "conn lp \<noteq> 0" and wf: "tx_wf lp" and emp: "txbpi lp = txbpr lp"
    and sz: "3 \<le> txbsz lp" and len: "int (length (txb lp)) = txbsz lp"
    and iac: "TN_IAC = ucast chr"
    and w: "\<forall>tr s bs. sim_write_sock e tr s bs = int (length bs)" and se: "SOCKET_ERROR h < 0"
  shows "fst (tmxr_send_buffered_data e h (snd (tmxr_putc_ln h lp chr)) tr) = 0 \<and>
         sent_to (conn lp) (snd (snd (tmxr_send_buffered_data e h (snd (tmxr_putc_ln h lp chr)) tr))) =
           sent_to (conn lp) tr @ [0xFF, 0xFF]"
proof -
  define lp' where "lp' = snd (tmxr_putc_ln h lp chr)"
  define p where "p = txbpi lp"
  have q0: "tmxr_tqln lp = 0"
    using emp by (simp add: tmxr_tqln_def)
  have pb: "0 \<le> p" "p < txbsz lp"
    using wf by (simp_all add: tx_wf_def p_def)
  have rm: "TN_IAC = ucast chr \<and> tmxr_tqln lp + 2 \<le> txbsz lp - 1"
    using iac q0 sz by simp
  have f: "conn lp' = conn lp" "txbsz lp' = txbsz lp" "txbpr lp' = p" "tmxr_tqln lp' = 2"
    "txbpi lp' = (p + 2) mod txbsz lp"
    "txb lp' = arr_set (arr_set (txb lp) p 0xFF) ((p + 1) mod txbsz lp) 0xFF"
    using putc_room [OF c wf, of chr h, THEN conjunct1, rule_format, OF rm]
    by (simp_all add: lp'_def Let_def q0 p_def emp)
  have wr: "\<And>s bs t. write_sock e s bs t = (int (length bs), t @ [Write s bs (int (length bs))])"
    using w by (simp add: write_sock_def Let_def)
  consider (a) "p + 2 < txbsz lp" | (b) "p + 2 = txbsz lp" | (c) "p + 1 = txbsz lp"
    using pb by linarith
  then have "fst (tmxr_send_buffered_data e h lp' tr) = 0 \<and>
         sent_to (conn lp) (snd (snd (tmxr_send_buffered_data e h lp' tr))) =
           sent_to (conn lp) tr @ [0xFF, 0xFF]"
  proof cases
    case a
    have m: "(p + 1) mod txbsz lp = p + 1" "(p + 2) mod txbsz lp = p + 2"
      using a pb by simp_all
    have sl: "arr_slice (arr_set (arr_set (txb lp) p 0xFF) (p + 1) 0xFF) p 2 = [0xFF, 0xFF]"
      using a pb len by (simp add: slice_two)
    show ?thesis
      using a pb se
      by (simp add: tmxr_send_buffered_data_def send_chunk_def wr f m sl Let_def sent_to_append)
  next
    case b
    have m: "(p + 1) mod txbsz lp = p + 1" "(p + 2) mod txbsz lp = 0"
      using b pb by simp_all
    have sl: "arr_slice (arr_set (arr_set (txb lp) p 0xFF) (p + 1) 0xFF) p 2 = [0xFF, 0xFF]"
      using b pb len by (simp add: slice_two)
    have d: "txbsz lp - p = 2"
      using b by simp
    show ?thesis
      using b pb se sz
      by (simp add: tmxr_send_buffered_data_def send_chunk_def wr f m sl d Let_def sent_to_append)
  next
    case c
    have p2: "p + 2 = txbsz lp + 1"
      using c by simp
    have "(txbsz lp + 1) mod txbsz lp = 1 mod txbsz lp"
      by (rule mod_add_self1)
    then have m2: "(p + 2) mod txbsz lp = 1"
      using sz by (simp add: p2)
    have m1: "(p + 1) mod txbsz lp = 0"
      using c by simp
    note m = m1 m2
    have p0: "0 < p"
      using c sz by simp
    have sl: "arr_slice (arr_set (arr_set (txb lp) p 0xFF) 0 0xFF) p 1 = [0xFF]"
      "arr_slice (arr_set (arr_set (txb lp) p 0xFF) 0 0xFF) 0 1 = [0xFF]"
      using p0 pb len by (simp_all add: slice_one)
    have d: "txbsz lp - p = 1"
      using c by simp
    show ?thesis
      using c pb se sz
      by (simp add: tmxr_send_buffered_data_def send_chunk_def wr f m sl d Let_def sent_to_append)
  qed
  then show ?thesis
    by (simp add: lp'_def)
qed


text \<open>
  C7: on a connected, well-formed line with at least two free slots in the transmit ring,
  \<open>tmxr_putc_ln\<close> of the byte 0xFF returns \<open>SCPE_OK\<close> and appends exactly two 0xFF
  bytes: they are stored at the insert pointer and the place after it, the insert pointer
  advances by two, the count of buffered bytes grows by two, and nothing is evicted. Any
  other byte, with one free slot, is stored once. When the ring was empty and the socket
  takes what it is offered, the \<open>tmxr_send_buffered_data\<close> that follows leaves nothing
  buffered and the socket has received exactly the two bytes 0xFF.
\<close>

theorem putc_iac_doubled:
  assumes "conn lp \<noteq> 0" and "tx_wf lp"
  shows "(TN_IAC = ucast chr \<and> tmxr_tqln lp + 2 \<le> txbsz lp - 1 \<longrightarrow>
            (let r = tmxr_putc_ln h lp chr; lp' = snd r in
             fst r = SCPE_OK \<and>
             txb lp' = arr_set (arr_set (txb lp) (txbpi lp) 0xFF) ((txbpi lp + 1) mod txbsz lp) 0xFF \<and>
             txbpi lp' = (txbpi lp + 2) mod txbsz lp \<and>
             txbpr lp' = txbpr lp \<and> txdrp lp' = txdrp lp \<and>
             tmxr_tqln lp' = tmxr_tqln lp + 2)) \<and>
         (TN_IAC \<noteq> ucast chr \<and> tmxr_tqln lp + 1 \<le> txbsz lp - 1 \<longrightarrow>
            (let r = tmxr_putc_ln h lp chr; lp' = snd r in
             fst r = SCPE_OK \<and>
             txb lp' = arr_set (txb lp) (txbpi lp) (ucast chr) \<and>
             txbpi lp' = (txbpi lp + 1) mod txbsz lp \<and>
             txbpr lp' = txbpr lp \<and> txdrp lp' = txdrp lp \<and>
             tmxr_tqln lp' = tmxr_tqln lp + 1)) \<and>
         (TN_IAC = ucast chr \<and> txbpi lp = txbpr lp \<and> 3 \<le> txbsz lp \<and>
          int (length (txb lp)) = txbsz lp \<and>
          (\<forall>tr s bs. sim_write_sock e tr s bs = int (length bs)) \<and> SOCKET_ERROR h < 0 \<longrightarrow>
            fst (tmxr_send_buffered_data e h (snd (tmxr_putc_ln h lp chr)) tr) = 0 \<and>
            sent_to (conn lp)
              (snd (snd (tmxr_send_buffered_data e h (snd (tmxr_putc_ln h lp chr)) tr))) =
              sent_to (conn lp) tr @ [0xFF, 0xFF])"
  using putc_room [OF assms, of chr h] putc_iac_wire [OF assms, of chr e h tr]
  by blast

text \<open>
  A line with three free slots takes an IAC as two bytes and the letter A as one; from an
  empty ring the two bytes reach the socket.
\<close>

theorem putc_iac_doubled_witness:
  "conn ln_252 \<noteq> 0 \<and> tx_wf ln_252 \<and> tmxr_tqln ln_252 + 2 \<le> txbsz ln_252 - 1 \<and>
   fst (tmxr_putc_ln hdr_ex ln_252 0xFF) = SCPE_OK \<and>
   txb (snd (tmxr_putc_ln hdr_ex ln_252 0xFF)) = (replicate 256 0)[252 := 0xFF, 253 := 0xFF] \<and>
   txbpi (snd (tmxr_putc_ln hdr_ex ln_252 0xFF)) = 254 \<and>
   tmxr_tqln (snd (tmxr_putc_ln hdr_ex ln_252 0xFF)) = 254 \<and>
   txb (snd (tmxr_putc_ln hdr_ex ln_252 0x41)) = (replicate 256 0)[252 := 0x41] \<and>
   txbpi (snd (tmxr_putc_ln hdr_ex ln_252 0x41)) = 253 \<and>
   sent_to 5 (snd (snd (tmxr_send_buffered_data env_open hdr_ex
                          (snd (tmxr_putc_ln hdr_ex ln_conn 0xFF)) []))) = [0xFF, 0xFF]"
proof -
  have f: "conn ln_252 = 5" "tx_wf ln_252" "tmxr_tqln ln_252 = 252" "txbsz ln_252 = 256"
    "txbpi ln_252 = 252" "txb ln_252 = replicate 256 0"
    by (simp_all add: ln_252_def ln_idle_def tx_wf_def tmxr_tqln_def)
  have g: "conn ln_conn = 5" "tx_wf ln_conn" "txbpi ln_conn = txbpr ln_conn"
    "txbsz ln_conn = 256" "length (txb ln_conn) = 256"
    "\<forall>tr s bs. sim_write_sock env_open tr s bs = int (length bs)" "SOCKET_ERROR hdr_ex = - 1"
    by (simp_all add: ln_conn_def ln_idle_def tx_wf_def env_open_def hdr_ex_def)
  show ?thesis
    using putc_iac_doubled [of ln_252 "0xFF" hdr_ex env_open "[]"]
      putc_iac_doubled [of ln_252 "0x41" hdr_ex env_open "[]"]
      putc_iac_doubled [of ln_conn "0xFF" hdr_ex env_open "[]"]
    by (simp add: f g Let_def TN_defs arr_set_def)
qed

text \<open>
  On a connected unbuffered line the stall test is \<open>TXBUF_AVAIL \<le> 1\<close> whatever the
  character is. With \<open>TXBUF_AVAIL = 2\<close> one slot is free, since a ring whose pointers
  meet counts as overflowed; an IAC is then written as two bytes all the same, and the
  second one evicts the oldest byte waiting for transmission.
\<close>

lemma putc_unbuffered_status:
  assumes "\<not> txbfd lp" and "conn lp \<noteq> 0"
  shows "fst (tmxr_putc_ln h lp chr) = (if TXBUF_AVAIL lp \<le> 1 then SCPE_STALL else SCPE_OK)"
  using assms by (simp add: putc_stall putc_store Let_def)

lemma putc_unbuffered_last_slot:
  assumes "\<not> txbfd lp" and "conn lp \<noteq> 0" and "tx_wf lp" and "TXBUF_AVAIL lp = 2"
    and "TN_IAC = ucast chr"
  shows "fst (tmxr_putc_ln h lp chr) = SCPE_OK"
    and "txdrp (snd (tmxr_putc_ln h lp chr)) = txdrp lp + 1"
    and "txbpr (snd (tmxr_putc_ln h lp chr)) = (txbpr lp + 1) mod txbsz lp"
proof -
  have st: "txbfd lp \<or> (conn lp \<noteq> 0 \<and> TXBUF_AVAIL lp > 1)"
    using assms by simp
  have q: "tmxr_tqln lp = txbsz lp - 2"
    using assms(4) by (simp add: TXBUF_AVAIL_def)
  show "fst (tmxr_putc_ln h lp chr) = SCPE_OK"
    using putc_store [OF st, of h chr] by (simp add: Let_def)
  show "txdrp (snd (tmxr_putc_ln h lp chr)) = txdrp lp + 1"
    using putc_store_ring [OF st assms(3), of h chr] assms(5) by (simp add: Let_def q)
  show "txbpr (snd (tmxr_putc_ln h lp chr)) = (txbpr lp + 1) mod txbsz lp"
    using putc_store_ring [OF st assms(3), of h chr] assms(5) by (simp add: Let_def q)
qed

text \<open>
  When the character fits, the line stays enabled exactly when at least \<open>TMXR_GUARD\<close>
  free slots remain after writing.
\<close>

lemma putc_unbuffered_guard:
  assumes "\<not> txbfd lp" and "conn lp \<noteq> 0" and "tx_wf lp"
    and "tmxr_tqln lp + (if TN_IAC = ucast chr then 2 else 1) \<le> txbsz lp - 1"
  shows "xmte (snd (tmxr_putc_ln h lp chr)) =
           (xmte lp \<and>
            \<not> txbsz lp - 1 - (tmxr_tqln lp + (if TN_IAC = ucast chr then 2 else 1)) < TMXR_GUARD h)"
proof -
  have st: "txbfd lp \<or> (conn lp \<noteq> 0 \<and> TXBUF_AVAIL lp > 1)"
    using assms by (auto simp: TXBUF_AVAIL_def split: if_splits)
  have wf1: "tx_wf (TXBUF_CHAR (putc_log lp chr) TN_IAC)"
    using assms(3) by (simp add: TXBUF_CHAR_wf)
  show ?thesis
    using assms wf1
    by (auto simp: putc_store [OF st] Let_def TXBUF_AVAIL_def TXBUF_CHAR_tqln split: if_splits)
qed

text \<open>
  C4 says that on a connected unbuffered line an IAC is stalled unless there is room for
  two bytes, and that \<open>txdrp\<close> is incremented exactly when the call stalls. The code
  at a line with 254 of 256 places taken (one free slot): the IAC is accepted with
  \<open>SCPE_OK\<close>, the oldest unsent byte is evicted and \<open>txdrp\<close> is incremented.
\<close>

theorem putc_iac_last_slot_evicts:
  "\<not> txbfd ln_254 \<and> conn ln_254 = 5 \<and> tmxr_tqln ln_254 = 254 \<and> txbsz ln_254 = 256 \<and>
   fst (tmxr_putc_ln hdr_ex ln_254 0xFF) = SCPE_OK \<and>
   txbpr (snd (tmxr_putc_ln hdr_ex ln_254 0xFF)) = 1 \<and>
   txdrp (snd (tmxr_putc_ln hdr_ex ln_254 0xFF)) = txdrp ln_254 + 1"
proof -
  have f: "\<not> txbfd ln_254" "conn ln_254 = 5" "tx_wf ln_254" "tmxr_tqln ln_254 = 254"
    "txbsz ln_254 = 256" "txbpr ln_254 = 0" "TXBUF_AVAIL ln_254 = 2"
    by (simp_all add: ln_254_def ln_idle_def tx_wf_def tmxr_tqln_def TXBUF_AVAIL_def)
  have i: "TN_IAC = (ucast (0xFF :: 32 word) :: byte)"
    by (simp add: TN_IAC_def)
  show ?thesis
    using putc_unbuffered_last_slot [of ln_254 "0xFF" hdr_ex, OF f(1) _ f(3) f(7) i]
    by (simp add: f)
qed

section \<open>Claims about the receive filter\<close>

text \<open>
  C3, as stated: in state NORM a CR arms \<open>TNS_CRPAD\<close> when \<open>dstb\<close> is false and
  leaves the state at NORM when it is true. The code does the opposite on both counts.
\<close>

theorem tn_step_cr_counterexample:
  "tsta ln_cr = TNS_NORM \<and> arr_get (rxb ln_cr) 0 0 = TN_CR \<and> \<not> dstb ln_cr \<and>
   tsta (fst (tn_step ln_cr 0)) = TNS_NORM \<and>
   tsta (fst (tn_step (ln_cr\<lparr>dstb := True\<rparr>) 0)) = TNS_CRPAD"
  by (simp add: tn_step_def ln_cr_def ln_idle_def arr_get_def Let_def TN_defs TNS_defs)

text \<open>
  C3, amended: in state NORM a CR is kept in the buffer, and the filter moves to
  \<open>TNS_CRPAD\<close> exactly when \<open>dstb\<close> is true; with \<open>dstb\<close> false it stays in
  NORM. The test in the code is \<open>(tmp == TN_CR) && lp->dstb\<close>.
\<close>

theorem tn_step_norm_cr:
  assumes "tsta lp = TNS_NORM" and "arr_get (rxb lp) j 0 = TN_CR"
  shows "tn_step lp j = ((if dstb lp then lp\<lparr>tsta := TNS_CRPAD\<rparr> else lp), j + 1)"
  using assms by (simp add: tn_step_def Let_def TN_defs)

theorem tn_step_norm_cr_witness:
  "tsta (ln_cr\<lparr>dstb := True\<rparr>) = TNS_NORM \<and> arr_get (rxb (ln_cr\<lparr>dstb := True\<rparr>)) 0 0 = TN_CR \<and>
   tn_step (ln_cr\<lparr>dstb := True\<rparr>) 0 = (ln_cr\<lparr>dstb := True, tsta := TNS_CRPAD\<rparr>, 1)"
  using tn_step_norm_cr [of "ln_cr\<lparr>dstb := True\<rparr>" 0]
  by (simp add: ln_cr_def ln_idle_def arr_get_def TN_defs TNS_defs)

section \<open>Claims about the console\<close>

lemma con_log_same [simp]:
  "sim_con_ldsc (log_char c cn) = sim_con_ldsc cn"
  "sim_con_tmxr (log_char c cn) = sim_con_tmxr cn"
  by (simp_all add: log_char_def sim_con_ldsc_def split: option.splits)

text \<open>
  C10: with the console on Telnet and a client connected, \<open>sim_putchar\<close> returns
  \<open>SCPE_OK\<close> whatever \<open>tmxr_putc_ln\<close> returned, while \<open>sim_putchar_s\<close> returns
  the stall of a disabled line or else the status of \<open>tmxr_putc_ln\<close>. When the line
  is unbuffered and has no room, that status is \<open>SCPE_STALL\<close>, the character is not
  stored and \<open>txdrp\<close> is incremented.
\<close>

theorem sim_putchar_ignores_status:
  assumes "master (sim_con_tmxr cn) \<noteq> 0" and "conn (sim_con_ldsc cn) \<noteq> 0"
  shows "fst (sim_putchar e h c cn tr) = SCPE_OK \<and>
         fst (sim_putchar_s e h c cn tr) =
           (if \<not> xmte (sim_con_ldsc cn) then SCPE_STALL
            else fst (tmxr_putc_ln h (sim_con_ldsc cn) c)) \<and>
         (\<not> txbfd (sim_con_ldsc cn) \<and> TXBUF_AVAIL (sim_con_ldsc cn) \<le> 1 \<longrightarrow>
            tmxr_putc_ln h (sim_con_ldsc cn) c =
              (SCPE_STALL, (putc_log (sim_con_ldsc cn) c)\<lparr>txdrp := txdrp (sim_con_ldsc cn) + 1,
                                                           xmte := False\<rparr>))"
  using assms
  by (auto simp: sim_putchar_def sim_putchar_s_def Let_def putc_stall split: prod.splits)

text \<open>The console line is full: \<open>sim_putchar\<close> reports success, \<open>sim_putchar_s\<close> the stall.\<close>

theorem sim_putchar_ignores_status_witness:
  "master (sim_con_tmxr con_ex) \<noteq> 0 \<and> conn (sim_con_ldsc con_ex) \<noteq> 0 \<and>
   \<not> txbfd (sim_con_ldsc con_ex) \<and> TXBUF_AVAIL (sim_con_ldsc con_ex) \<le> 1 \<and>
   fst (tmxr_putc_ln hdr_ex (sim_con_ldsc con_ex) 0x41) = SCPE_STALL \<and>
   txdrp (snd (tmxr_putc_ln hdr_ex (sim_con_ldsc con_ex) 0x41)) = 1 \<and>
   fst (sim_putchar env_blocked hdr_ex 0x41 con_ex []) = SCPE_OK \<and>
   fst (sim_putchar_s env_blocked hdr_ex 0x41 con_ex []) = SCPE_STALL"
proof -
  have f: "master (sim_con_tmxr con_ex) = 3" "conn (sim_con_ldsc con_ex) = 5"
    "\<not> txbfd (sim_con_ldsc con_ex)" "TXBUF_AVAIL (sim_con_ldsc con_ex) = 1"
    "xmte (sim_con_ldsc con_ex)" "txdrp (sim_con_ldsc con_ex) = 0"
    by (simp_all add: con_ex_def sim_con_ldsc_def ln_idle_def TXBUF_AVAIL_def tmxr_tqln_def)
  show ?thesis
    using sim_putchar_ignores_status [of con_ex env_blocked hdr_ex "0x41" "[]"]
    by (simp add: f)
qed

section \<open>What the operations leave alone\<close>

lemma tx_only_refl: "tx_only lp lp"
  unfolding tx_only_def
  by (rule exI [of _ "txbpr lp"], rule exI [of _ "txcnt lp"], rule exI [of _ "xmte lp"]) simp

lemma tx_only_trans: "tx_only a b \<Longrightarrow> tx_only b c \<Longrightarrow> tx_only a c"
  unfolding tx_only_def by (elim exE, simp) blast

lemma tx_only_xmte: "tx_only lp lp' \<Longrightarrow> tx_only lp (lp'\<lparr>xmte := x\<rparr>)"
  unfolding tx_only_def by (elim exE, simp) blast

lemma tx_only_fields:
  assumes "tx_only lp lp'"
  shows "conn lp' = conn lp" "txbfd lp' = txbfd lp" "txbpi lp' = txbpi lp" "txb lp' = txb lp"
    "rxcnt lp' = rxcnt lp" "txdrp lp' = txdrp lp" "txlog lp' = txlog lp" "txbsz lp' = txbsz lp"
  using assms unfolding tx_only_def by auto

lemma tx_only_rx_eq: "tx_only lp lp' \<Longrightarrow> rx_eq lp lp'"
  unfolding tx_only_def rx_eq_def by auto

lemma rx_eq_refl: "rx_eq lp lp"
  by (simp add: rx_eq_def)

lemma rx_eq_trans: "rx_eq a b \<Longrightarrow> rx_eq b c \<Longrightarrow> rx_eq a c"
  by (simp add: rx_eq_def)

lemma send_chunk_tx: "tx_only lp (fst (snd (send_chunk e h bs n lp tr)))"
proof (cases "fst (write_sock e (conn lp) bs tr) = SOCKET_ERROR h")
  case True
  then show ?thesis by (simp add: send_chunk_def split_beta tx_only_refl)
next
  case False
  define s where "s = fst (write_sock e (conn lp) bs tr)"
  have "fst (snd (send_chunk e h bs n lp tr)) =
          lp\<lparr>txbpr := (if txbpr lp + s \<ge> txbsz lp then 0 else txbpr lp + s),
             txcnt := txcnt lp + word_of_int s, xmte := xmte lp\<rparr>"
    using False by (simp add: send_chunk_def split_beta Let_def s_def)
  then show ?thesis
    unfolding tx_only_def by blast
qed

lemma send_tx: "tx_only lp (fst (snd (tmxr_send_buffered_data e h lp tr)))"
proof (cases "tmxr_tqln lp = 0")
  case True
  then show ?thesis by (simp add: tmxr_send_buffered_data_def tx_only_refl)
next
  case False
  obtain bs where
    c1: "(if txbpr lp < txbpi lp
                then send_chunk e h (arr_slice (txb lp) (txbpr lp) (tmxr_tqln lp)) (tmxr_tqln lp) lp tr
                else send_chunk e h (arr_slice (txb lp) (txbpr lp) (txbsz lp - txbpr lp))
                       (tmxr_tqln lp) lp tr) = send_chunk e h bs (tmxr_tqln lp) lp tr"
    by (cases "txbpr lp < txbpi lp") auto
  obtain n1 lp1 tr1 where r1: "send_chunk e h bs (tmxr_tqln lp) lp tr = (n1, lp1, tr1)"
    by (cases "send_chunk e h bs (tmxr_tqln lp) lp tr") auto
  have t1: "tx_only lp lp1"
    using send_chunk_tx [of lp e h bs "tmxr_tqln lp" tr] r1 by simp
  have t2: "tx_only lp (fst (snd (send_chunk e h (arr_slice (txb lp1) 0 n1) n1 lp1 tr1)))"
    using t1 send_chunk_tx tx_only_trans by blast
  have "fst (snd (tmxr_send_buffered_data e h lp tr)) =
          (if n1 \<noteq> 0 \<and> txbpr lp1 = 0
           then fst (snd (send_chunk e h (arr_slice (txb lp1) 0 n1) n1 lp1 tr1)) else lp1)"
    using False unfolding tmxr_send_buffered_data_def Let_def c1 r1 by simp
  then show ?thesis
    using t1 t2 by simp
qed

lemma poll_tx_loop_lines:
  "lines (fst (poll_tx_loop e h i mp tr)) = lines mp \<and>
   length (ldsc (fst (poll_tx_loop e h i mp tr))) = length (ldsc mp) \<and>
   (\<forall>k. tx_only (ldsc mp ! k) (ldsc (fst (poll_tx_loop e h i mp tr)) ! k))"
proof (induction e h i mp tr rule: poll_tx_loop.induct)
  case (1 e h i mp tr)
  show ?case
  proof (cases "i < lines mp")
    case False
    then show ?thesis
      by (subst (1 2 3) poll_tx_loop.simps) (simp add: tx_only_refl)
  next
    case True
    define lp where "lp = ldsc mp ! nat i"
    show ?thesis
    proof (cases "conn lp = 0")
      case c: True
      have eq: "poll_tx_loop e h i mp tr = poll_tx_loop e h (i + 1) mp tr"
        using True c by (subst poll_tx_loop.simps) (simp add: lp_def Let_def)
      show ?thesis
        unfolding eq using "1.IH"(1) [OF True lp_def c] .
    next
      case c: False
      obtain nbytes lp1 tr1 where s: "tmxr_send_buffered_data e h lp tr = (nbytes, lp1, tr1)"
        by (cases "tmxr_send_buffered_data e h lp tr") auto
      define lp2 where "lp2 = (if nbytes = 0 then lp1\<lparr>xmte := True\<rparr> else lp1)"
      define mp' where "mp' = mp\<lparr>ldsc := (ldsc mp)[nat i := lp2]\<rparr>"
      have eq: "poll_tx_loop e h i mp tr = poll_tx_loop e h (i + 1) mp' tr1"
        using True c
        by (subst poll_tx_loop.simps) (simp add: lp_def [symmetric] Let_def s lp2_def mp'_def)
      have ih: "lines (fst (poll_tx_loop e h (i + 1) mp' tr1)) = lines mp' \<and>
         length (ldsc (fst (poll_tx_loop e h (i + 1) mp' tr1))) = length (ldsc mp') \<and>
         (\<forall>k. tx_only (ldsc mp' ! k) (ldsc (fst (poll_tx_loop e h (i + 1) mp' tr1)) ! k))"
        using "1.IH"(2) [of lp "tmxr_send_buffered_data e h lp tr" nbytes "(lp1, tr1)" lp1 tr1 lp2]
          True c s
        by (simp add: lp_def lp2_def mp'_def)
      have t1: "tx_only lp lp1"
        using send_tx [of lp e h tr] s by simp
      have t2: "tx_only lp lp2"
        using t1 by (simp add: lp2_def tx_only_xmte)
      have st: "\<And>k. tx_only (ldsc mp ! k) (ldsc mp' ! k)"
      proof -
        fix k
        show "tx_only (ldsc mp ! k) (ldsc mp' ! k)"
        proof (cases "k = nat i \<and> k < length (ldsc mp)")
          case True
          then show ?thesis using t2 by (simp add: mp'_def lp_def)
        next
          case False
          then have "ldsc mp' ! k = ldsc mp ! k"
            by (cases "k = nat i") (simp_all add: mp'_def list_update_beyond)
          then show ?thesis by (simp add: tx_only_refl)
        qed
      qed
      show ?thesis
        unfolding eq
      proof (intro conjI allI)
        show "lines (fst (poll_tx_loop e h (i + 1) mp' tr1)) = lines mp"
          using ih by (simp add: mp'_def)
        show "length (ldsc (fst (poll_tx_loop e h (i + 1) mp' tr1))) = length (ldsc mp)"
          using ih by (simp add: mp'_def)
        fix k
        show "tx_only (ldsc mp ! k) (ldsc (fst (poll_tx_loop e h (i + 1) mp' tr1)) ! k)"
          using tx_only_trans [OF st [of k]] ih by blast
      qed
    qed
  qed
qed

lemma TXBUF_CHAR_rx_eq: "rx_eq lp (TXBUF_CHAR lp c)"
  by (simp add: rx_eq_def TXBUF_CHAR_def Let_def)

lemma putc_log_rx_eq: "rx_eq lp (putc_log lp c)"
  by (simp add: rx_eq_def putc_log_def split: option.splits)

lemma putc_rx_eq: "rx_eq lp (snd (tmxr_putc_ln h lp c))"
  by (simp add: rx_eq_def tmxr_putc_ln_def Let_def TXBUF_CHAR_def putc_log_def
      split: option.splits)

lemma linemsg_rx_eq: "rx_eq lp (tmxr_linemsg h lp msg)"
proof (induction msg arbitrary: lp)
  case Nil
  then show ?case by (simp add: rx_eq_refl)
next
  case (Cons c cs)
  show ?case
    using rx_eq_trans [OF putc_rx_eq Cons.IH] by simp
qed

section \<open>Claims about \<open>tmxr_reset_ln\<close>\<close>

text \<open>
  C6, as stated: after a reset the three counters are zero, and in buffered mode the
  transmit indices are as before. Neither holds: the reset does not touch the counters,
  and it first sends what is buffered, which moves the remove pointer.
\<close>

theorem reset_ln_counterexample:
  "rxcnt (fst (tmxr_reset_ln env_open hdr_ex ln_used [])) = 7 \<and>
   txcnt (fst (tmxr_reset_ln env_open hdr_ex ln_used [])) = 9 \<and>
   txdrp (fst (tmxr_reset_ln env_open hdr_ex ln_used [])) = 2 \<and>
   txbfd ln_buf3 \<and> txbpr ln_buf3 = 0 \<and>
   txbpr (fst (tmxr_reset_ln env_open hdr_ex ln_buf3 [])) = 3"
  by code_simp

text \<open>
  C6, amended: \<open>tmxr_reset_ln\<close> flushes the log, offers the buffered data to the socket
  once more (\<open>tmxr_send_buffered_data\<close>), closes the socket and leaves the line with
  no connection, Telnet state 0, both receive indices 0, transmit enabled and \<open>dstb\<close>
  clear. Unbuffered, both transmit indices are 0; buffered, the insert pointer and the
  buffer are kept and the remove pointer is where the final send left it. The counters are
  not reset: \<open>rxcnt\<close> and \<open>txdrp\<close> are unchanged and \<open>txcnt\<close> has grown by what
  the final send delivered.
\<close>

theorem reset_ln_effect:
  "let lp0 = lp\<lparr>txlog := map_option fflush (txlog lp)\<rparr>;
       (n, lps, trs) = tmxr_send_buffered_data e h lp0 tr;
       (lp', tr') = tmxr_reset_ln e h lp tr
   in (\<forall>f. txlog lp' = Some f \<longrightarrow> pending f = []) \<and>
      txlog lp' = map_option fflush (txlog lp) \<and>
      tr' = trs @ [Close (conn lp) 0] \<and>
      conn lp' = 0 \<and> tsta lp' = 0 \<and> rxbpr lp' = 0 \<and> rxbpi lp' = 0 \<and>
      xmte lp' \<and> \<not> dstb lp' \<and>
      (\<not> txbfd lp \<longrightarrow> txbpr lp' = 0 \<and> txbpi lp' = 0) \<and>
      (txbfd lp \<longrightarrow> txbpi lp' = txbpi lp \<and> txbpr lp' = txbpr lps \<and> txb lp' = txb lp) \<and>
      rxcnt lp' = rxcnt lp \<and> txdrp lp' = txdrp lp \<and> txcnt lp' = txcnt lps"
proof -
  define lp0 where "lp0 = lp\<lparr>txlog := map_option fflush (txlog lp)\<rparr>"
  have l0: "(case txlog lp of Some f \<Rightarrow> lp\<lparr>txlog := Some (fflush f)\<rparr> | None \<Rightarrow> lp) = lp0"
    by (simp add: lp0_def split: option.splits)
  obtain n lps trs where s: "tmxr_send_buffered_data e h lp0 tr = (n, lps, trs)"
    by (cases "tmxr_send_buffered_data e h lp0 tr") auto
  have fr: "tx_only lp0 lps"
    using send_tx [of lp0 e h tr] s by simp
  have fl: "\<And>f. map_option fflush (txlog lp) = Some f \<Longrightarrow> pending f = []"
    by (auto simp: fflush_def)
  have eqs: "conn lps = conn lp" "txbfd lps = txbfd lp" "txbpi lps = txbpi lp" "txb lps = txb lp"
    "rxcnt lps = rxcnt lp" "txdrp lps = txdrp lp" "txlog lps = map_option fflush (txlog lp)"
    using tx_only_fields [OF fr] by (simp_all add: lp0_def)
  show ?thesis
    unfolding lp0_def [symmetric] tmxr_reset_ln_def l0
    using fl by (simp add: s Let_def close_sock_def eqs)
qed

text \<open>
  An unbuffered line with nothing to send: the trace is the close alone. A buffered line
  with a log: the insert pointer stays and the log is flushed.
\<close>

theorem reset_ln_effect_witness:
  "\<not> txbfd ln_used \<and>
   conn (fst (tmxr_reset_ln env_open hdr_ex ln_used [])) = 0 \<and>
   txbpr (fst (tmxr_reset_ln env_open hdr_ex ln_used [])) = 0 \<and>
   txbpi (fst (tmxr_reset_ln env_open hdr_ex ln_used [])) = 0 \<and>
   rxcnt (fst (tmxr_reset_ln env_open hdr_ex ln_used [])) = 7 \<and>
   snd (tmxr_reset_ln env_open hdr_ex ln_used []) = [Close 5 0] \<and>
   txbfd ln_buf3_log \<and>
   txbpi (fst (tmxr_reset_ln env_open hdr_ex ln_buf3_log [])) = 3 \<and>
   txlog (fst (tmxr_reset_ln env_open hdr_ex ln_buf3_log [])) =
     Some \<lparr>flushed = [0x41], pending = []\<rparr>"
proof -
  have s: "tmxr_send_buffered_data env_open hdr_ex
             (ln_used\<lparr>txlog := map_option fflush (txlog ln_used)\<rparr>) [] =
           (0, ln_used\<lparr>txlog := None\<rparr>, [])"
    by (simp add: tmxr_send_buffered_data_def tmxr_tqln_def ln_used_def ln_idle_def)
  have f: "\<not> txbfd ln_used" "conn ln_used = 5" "rxcnt ln_used = 7"
    by (simp_all add: ln_used_def ln_idle_def)
  have g: "txbfd ln_buf3_log" "txbpi ln_buf3_log = 3"
    "map_option fflush (txlog ln_buf3_log) = Some \<lparr>flushed = [0x41], pending = []\<rparr>"
    by (simp_all add: ln_buf3_log_def ln_buf3_def ln_idle_def fflush_def)
  show ?thesis
    using reset_ln_effect [of ln_used env_open hdr_ex "[]"]
      reset_ln_effect [of ln_buf3_log env_open hdr_ex "[]"]
    by (simp add: s f g split_beta Let_def)
qed

section \<open>Removing a character from the receive buffer\<close>

lemma arr_get_set:
  "arr_get (arr_set xs p v) k d =
     (if k = p \<and> 0 \<le> p \<and> p < int (length xs) then v else arr_get xs k d)"
  by (auto simp: arr_get_def arr_set_def nth_list_update)

lemma arr_get_oob: "\<not> i < int (length xs) \<Longrightarrow> arr_get xs i d = d"
  by (simp add: arr_get_def)

lemma rmvrc_loop_rxb:
  "0 \<le> p \<Longrightarrow> arr_get (rxb (rmvrc_loop lp p)) k 0 =
     (if p \<le> k \<and> k < rxbpi lp then arr_get (rxb lp) (k + 1) 0 else arr_get (rxb lp) k 0)"
proof (induction lp p rule: rmvrc_loop.induct)
  case (1 lp p)
  show ?case
  proof (cases "p < rxbpi lp")
    case True
    have "0 \<le> p + 1" using "1.prems" by simp
    note ih = "1.IH" [OF True this]
    show ?thesis
      using True "1.prems"
      by (subst rmvrc_loop.simps) (auto simp: ih arr_get_set arr_get_oob)
  next
    case False
    then show ?thesis by (subst rmvrc_loop.simps) auto
  qed
qed

lemma rmvrc_loop_rbr:
  "0 \<le> p \<Longrightarrow> arr_get (rbr (rmvrc_loop lp p)) k False =
     (if p \<le> k \<and> k < rxbpi lp then arr_get (rbr lp) (k + 1) False else arr_get (rbr lp) k False)"
proof (induction lp p rule: rmvrc_loop.induct)
  case (1 lp p)
  show ?case
  proof (cases "p < rxbpi lp")
    case True
    have "0 \<le> p + 1" using "1.prems" by simp
    note ih = "1.IH" [OF True this]
    show ?thesis
      using True "1.prems"
      by (subst rmvrc_loop.simps) (auto simp: ih arr_get_set arr_get_oob)
  next
    case False
    then show ?thesis by (subst rmvrc_loop.simps) auto
  qed
qed

lemma rmvrc_loop_len [simp]:
  "length (rxb (rmvrc_loop lp p)) = length (rxb lp)"
  "length (rbr (rmvrc_loop lp p)) = length (rbr lp)"
proof (induction lp p rule: rmvrc_loop.induct)
  case (1 lp p)
  {
    case 1
    show ?case
    proof (cases "p < rxbpi lp")
      case True
      from "1.IH"(1) [OF True] True show ?thesis
        by (subst rmvrc_loop.simps) (simp add: arr_set_def)
    next
      case False
      then show ?thesis by (simp add: rmvrc_loop.simps)
    qed
  next
    case 2
    show ?case
    proof (cases "p < rxbpi lp")
      case True
      from "1.IH"(2) [OF True] True show ?thesis
        by (subst rmvrc_loop.simps) (simp add: arr_set_def)
    next
      case False
      then show ?thesis by (simp add: rmvrc_loop.simps)
    qed
  }
qed

lemma rmvrc_frame:
  "tmxr_rmvrc lp p =
     lp\<lparr>rxb := rxb (rmvrc_loop lp p), rbr := rbr (rmvrc_loop lp p), rxbpi := rxbpi lp - 1\<rparr>"
  unfolding tmxr_rmvrc_def Let_def by (subst rmvrc_loop_frame) simp

lemma rmvrc_same [simp]:
  "conn (tmxr_rmvrc lp p) = conn lp" "dstb (tmxr_rmvrc lp p) = dstb lp"
  "rcve (tmxr_rmvrc lp p) = rcve lp" "rxbpr (tmxr_rmvrc lp p) = rxbpr lp"
  by (simp_all add: rmvrc_frame)

lemma rmvrc_rxb:
  "0 \<le> p \<Longrightarrow> arr_get (rxb (tmxr_rmvrc lp p)) k 0 =
     (if p \<le> k \<and> k < rxbpi lp then arr_get (rxb lp) (k + 1) 0 else arr_get (rxb lp) k 0)"
  by (simp add: tmxr_rmvrc_def Let_def rmvrc_loop_rxb)

lemma rmvrc_rbr:
  "0 \<le> p \<Longrightarrow> arr_get (rbr (tmxr_rmvrc lp p)) k False =
     (if p \<le> k \<and> k < rxbpi lp then arr_get (rbr lp) (k + 1) False else arr_get (rbr lp) k False)"
  by (simp add: tmxr_rmvrc_def Let_def rmvrc_loop_rbr)

lemma iac_brk_steps:
  assumes n: "tsta lp = TNS_NORM" and j: "0 \<le> j" "j + 1 < rxbpi lp"
    and len: "rxbpi lp \<le> int (length (rxb lp))" "rxbpi lp \<le> int (length (rbr lp))"
    and b: "arr_get (rxb lp) j 0 = TN_IAC" "arr_get (rxb lp) (j + 1) 0 = TN_BRK"
  shows "let (lp1, j1) = tn_step lp j; (lp2, j2) = tn_step lp1 j1 in
           j1 = j \<and> j2 = j + 1 \<and> tsta lp2 = TNS_NORM \<and> rxbpi lp2 = rxbpi lp - 1 \<and>
           rxbpr lp2 = rxbpr lp \<and>
           arr_get (rxb lp2) j 0 = 0 \<and> arr_get (rbr lp2) j False \<and>
           (\<forall>k. k < j \<longrightarrow> arr_get (rxb lp2) k 0 = arr_get (rxb lp) k 0 \<and>
                            arr_get (rbr lp2) k False = arr_get (rbr lp) k False) \<and>
           (\<forall>k. j < k \<and> k < rxbpi lp - 1 \<longrightarrow>
                 arr_get (rxb lp2) k 0 = arr_get (rxb lp) (k + 1) 0 \<and>
                 arr_get (rbr lp2) k False = arr_get (rbr lp) (k + 1) False) \<and>
           filter_loop lp j = filter_loop lp2 j2"
proof -
  define lp1 where "lp1 = tmxr_rmvrc (lp\<lparr>tsta := TNS_IAC\<rparr>) j"
  have s1: "tn_step lp j = (lp1, j)"
    using n b(1) by (simp add: tn_step_def Let_def lp1_def)
  have f1: "tsta lp1 = TNS_IAC" "rxbpi lp1 = rxbpi lp - 1" "rxbpr lp1 = rxbpr lp"
    "length (rxb lp1) = length (rxb lp)" "length (rbr lp1) = length (rbr lp)"
    by (simp_all add: lp1_def rmvrc_frame)
  have g1: "\<And>k. arr_get (rxb lp1) k 0 =
     (if j \<le> k \<and> k < rxbpi lp then arr_get (rxb lp) (k + 1) 0 else arr_get (rxb lp) k 0)"
    "\<And>k. arr_get (rbr lp1) k False =
     (if j \<le> k \<and> k < rxbpi lp then arr_get (rbr lp) (k + 1) False else arr_get (rbr lp) k False)"
    using j(1) by (simp_all add: lp1_def rmvrc_rxb rmvrc_rbr)
  define lp2 where
    "lp2 = lp1\<lparr>tsta := TNS_NORM, rxb := arr_set (rxb lp1) j 0, rbr := arr_set (rbr lp1) j True\<rparr>"
  have brk: "arr_get (rxb lp1) j 0 = TN_BRK"
    using g1(1) [of j] j b(2) by simp
  have s2: "tn_step lp1 j = (lp2, j + 1)"
    using f1(1) brk by (simp add: tn_step_def Let_def lp2_def TNS_defs TN_defs)
  have fl: "filter_loop lp j = filter_loop lp2 (j + 1)"
    using j f1(2) by (subst filter_loop.simps, simp add: s1, subst filter_loop.simps, simp add: s2)
  show ?thesis
    using j len fl
    by (simp add: s1 s2) (simp add: lp2_def f1 g1 arr_get_set)
qed

section \<open>The lines of a multiplexer under the polling loops\<close>

lemma poll_tx_lines:
  "lines (fst (tmxr_poll_tx e h mp tr)) = lines mp"
  "length (ldsc (fst (tmxr_poll_tx e h mp tr))) = length (ldsc mp)"
  "tx_only (ldsc mp ! k) (ldsc (fst (tmxr_poll_tx e h mp tr)) ! k)"
  using poll_tx_loop_lines [of e h 0 mp tr] by (simp_all add: tmxr_poll_tx_def)

text \<open>
  The line that \<open>tmxr_poll_conn\<close> connects: it holds the new socket, its Telnet
  state is 0 and \<open>dstb\<close> is clear; the receive side is as it was.
\<close>

lemma poll_conn_line:
  assumes pc: "tmxr_poll_conn e h mp tr = (i, mp1, tr1)" and i: "0 \<le> i"
    and len: "nat i < length (ldsc mp)"
  shows "conn (ldsc mp1 ! nat i) = fst (sim_accept_conn e tr (master mp))"
    and "tsta (ldsc mp1 ! nat i) = 0" and "\<not> dstb (ldsc mp1 ! nat i)"
    and "rcve (ldsc mp1 ! nat i) = rcve (ldsc mp ! nat i)"
    and "rxbpi (ldsc mp1 ! nat i) = rxbpi (ldsc mp ! nat i)"
    and "rxbpr (ldsc mp1 ! nat i) = rxbpr (ldsc mp ! nat i)"
    and "rxb (ldsc mp1 ! nat i) = rxb (ldsc mp ! nat i)"
    and "rbr (ldsc mp1 ! nat i) = rbr (ldsc mp ! nat i)"
    and "length (ldsc mp1) = length (ldsc mp)" and "lines mp1 = lines mp"
proof -
  define newsock where "newsock = fst (sim_accept_conn e tr (master mp))"
  define ipaddr where "ipaddr = snd (sim_accept_conn e tr (master mp))"
  define tr0 where "tr0 = tr @ [Accept (master mp) newsock ipaddr]"
  have ns: "newsock \<noteq> INVALID_SOCKET h"
    using pc i unfolding tmxr_poll_conn_def Let_def split_beta newsock_def
    by (auto split: if_splits)
  have sc: "scan_loop mp 0 0 (lines mp) = i" "i < lines mp"
    using pc i ns unfolding tmxr_poll_conn_def Let_def split_beta newsock_def
    by (auto split: if_splits)
  define lp where "lp = ldsc mp ! nat i"
  define tr2 where "tr2 = snd (write_sock e newsock (mantra h) tr0)"
  define msgbuf where "msgbuf = conn_msg e mp i"
  define t where "t = sim_os_msec e tr2"
  define lp2 where "lp2 = lp\<lparr>conn := newsock, ipad := ipaddr, cnms := t\<rparr>"
  define lp3 where "lp3 = (if buffered mp = 0 then
                            lp2\<lparr>txbpi := 0, txbpr := txbsz lp2 - int (length msgbuf),
                                rxcnt := 0, txcnt := 0, txdrp := 0\<rparr>
                          else if sint (txcnt lp2) > txbsz lp2 then
                            lp2\<lparr>txbpr := (txbpi lp2 + 1) smod txbsz lp2\<rparr>
                          else lp2\<lparr>txbpr := txbsz lp2 - int (length msgbuf)\<rparr>)"
  define lp4 where "lp4 = lp3\<lparr>tsta := 0, xmte := True, dstb := False\<rparr>"
  define lp6 where "lp6 = (tmxr_linemsg h (lp4\<lparr>txbpi := txbpr lp4\<rparr>) msgbuf)\<lparr>txbpi := txbpi lp4\<rparr>"
  define pt where "pt = tmxr_poll_tx e h (mp\<lparr>ldsc := (ldsc mp)[nat i := lp6]\<rparr>) (tr2 @ [Msec t])"
  define lp7 where "lp7 = ldsc (fst pt) ! nat i"
  have ns': "fst (sim_accept_conn e tr (master mp)) \<noteq> INVALID_SOCKET h"
    using ns by (simp add: newsock_def)
  have "tmxr_poll_conn e h mp tr =
          (i, (fst pt)\<lparr>ldsc := (ldsc (fst pt))[nat i := lp7\<lparr>txcnt := txcnt lp7 - word_of_int (int (length msgbuf))\<rparr>]\<rparr>,
           snd pt)"
    unfolding lp7_def pt_def lp6_def lp4_def lp3_def lp2_def lp_def t_def msgbuf_def tr2_def
      tr0_def newsock_def ipaddr_def tmxr_poll_conn_def
    using ns' sc(2) by (simp add: Let_def split_beta sc(1))
  then have mp1: "mp1 = (fst pt)\<lparr>ldsc := (ldsc (fst pt))[nat i := lp7\<lparr>txcnt := txcnt lp7 - word_of_int (int (length msgbuf))\<rparr>]\<rparr>"
    using pc by simp
  have r4: "conn lp4 = newsock" "tsta lp4 = 0" "\<not> dstb lp4" "rcve lp4 = rcve lp"
    "rxbpi lp4 = rxbpi lp" "rxbpr lp4 = rxbpr lp" "rxb lp4 = rxb lp" "rbr lp4 = rbr lp"
    by (simp_all add: lp4_def lp3_def lp2_def)
  have "rx_eq (lp4\<lparr>txbpi := txbpr lp4\<rparr>) (tmxr_linemsg h (lp4\<lparr>txbpi := txbpr lp4\<rparr>) msgbuf)"
    by (rule linemsg_rx_eq)
  then have r6: "rx_eq lp4 lp6"
    by (simp add: rx_eq_def lp6_def)
  have lpt: "length (ldsc (fst pt)) = length (ldsc mp)" "lines (fst pt) = lines mp"
    by (simp_all add: pt_def poll_tx_lines)
  have "tx_only ((ldsc mp)[nat i := lp6] ! nat i) lp7"
    using poll_tx_lines(3) [of "mp\<lparr>ldsc := (ldsc mp)[nat i := lp6]\<rparr>" "nat i" e h "tr2 @ [Msec t]"]
    by (simp add: lp7_def pt_def)
  then have "rx_eq lp6 lp7"
    using len by (simp add: tx_only_rx_eq)
  then have r7: "rx_eq lp4 lp7"
    using r6 rx_eq_trans by blast
  have l1: "ldsc mp1 ! nat i = lp7\<lparr>txcnt := txcnt lp7 - word_of_int (int (length msgbuf))\<rparr>"
    using len lpt by (simp add: mp1)
  show "conn (ldsc mp1 ! nat i) = fst (sim_accept_conn e tr (master mp))"
    and "tsta (ldsc mp1 ! nat i) = 0" and "\<not> dstb (ldsc mp1 ! nat i)"
    and "rcve (ldsc mp1 ! nat i) = rcve (ldsc mp ! nat i)"
    and "rxbpi (ldsc mp1 ! nat i) = rxbpi (ldsc mp ! nat i)"
    and "rxbpr (ldsc mp1 ! nat i) = rxbpr (ldsc mp ! nat i)"
    and "rxb (ldsc mp1 ! nat i) = rxb (ldsc mp ! nat i)"
    and "rbr (ldsc mp1 ! nat i) = rbr (ldsc mp ! nat i)"
    using r7 r4 by (simp_all add: l1 rx_eq_def lp_def newsock_def)
  show "length (ldsc mp1) = length (ldsc mp)" and "lines mp1 = lines mp"
    using lpt by (simp_all add: mp1)
qed

text \<open>
  \<open>tmxr_poll_rx\<close> handles every line once: line \<open>k\<close> of the result is the body
  of the first loop applied to line \<open>k\<close>, then the pointer reset of the second loop.
\<close>

lemma poll_rx_loop_lines:
  assumes "0 \<le> i"
  shows "lines (fst (poll_rx_loop e h i mp tr)) = lines mp \<and>
         length (ldsc (fst (poll_rx_loop e h i mp tr))) = length (ldsc mp) \<and>
         (\<forall>k. if nat i \<le> k \<and> int k < lines mp \<and> k < length (ldsc mp)
              then \<exists>trk. ldsc (fst (poll_rx_loop e h i mp tr)) ! k =
                           fst (poll_rx_ln e h (ldsc mp ! k) trk)
              else ldsc (fst (poll_rx_loop e h i mp tr)) ! k = ldsc mp ! k)"
  using assms
proof (induction e h i mp tr rule: poll_rx_loop.induct)
  case (1 e h i mp tr)
  show ?case
  proof (cases "i < lines mp")
    case False
    have eq0: "poll_rx_loop e h i mp tr = (mp, tr)"
      using False by (subst poll_rx_loop.simps) simp
    show ?thesis
      unfolding eq0 using False "1.prems" by auto
  next
    case True
    obtain lp1 tr1 where r: "poll_rx_ln e h (ldsc mp ! nat i) tr = (lp1, tr1)"
      by (cases "poll_rx_ln e h (ldsc mp ! nat i) tr") auto
    define mp' where "mp' = mp\<lparr>ldsc := (ldsc mp)[nat i := lp1]\<rparr>"
    have eq: "poll_rx_loop e h i mp tr = poll_rx_loop e h (i + 1) mp' tr1"
      using True by (subst poll_rx_loop.simps) (simp add: r mp'_def)
    have p1: "0 \<le> i + 1" using "1.prems" by simp
    have L: "lines mp' = lines mp" "length (ldsc mp') = length (ldsc mp)"
      by (simp_all add: mp'_def)
    note ih0 = "1.IH" [OF True refl r [symmetric] p1, folded mp'_def, unfolded L]
    note ih = ih0 [THEN conjunct1] ih0 [THEN conjunct2, THEN conjunct1]
      ih0 [THEN conjunct2, THEN conjunct2, THEN spec]
    show ?thesis
      unfolding eq
    proof (intro conjI allI)
      show "lines (fst (poll_rx_loop e h (i + 1) mp' tr1)) = lines mp"
        by (rule ih(1))
      show "length (ldsc (fst (poll_rx_loop e h (i + 1) mp' tr1))) = length (ldsc mp)"
        by (rule ih(2))
      fix k
      note ihk = ih(3) [of k]
      show "if nat i \<le> k \<and> int k < lines mp \<and> k < length (ldsc mp)
            then \<exists>trk. ldsc (fst (poll_rx_loop e h (i + 1) mp' tr1)) ! k =
                         fst (poll_rx_ln e h (ldsc mp ! k) trk)
            else ldsc (fst (poll_rx_loop e h (i + 1) mp' tr1)) ! k = ldsc mp ! k"
      proof (cases "k = nat i")
        case k: True
        show ?thesis
        proof (cases "k < length (ldsc mp)")
          case kl: True
          have "\<not> nat (i + 1) \<le> k"
            using k "1.prems" by simp
          then have "ldsc (fst (poll_rx_loop e h (i + 1) mp' tr1)) ! k = ldsc mp' ! k"
            using ihk by simp
          also have "\<dots> = lp1"
            using k kl by (simp add: mp'_def)
          also have "\<dots> = fst (poll_rx_ln e h (ldsc mp ! k) tr)"
            using r k by simp
          finally show ?thesis
            using k kl True "1.prems" by auto
        next
          case kl: False
          have "\<not> nat (i + 1) \<le> k"
            using k "1.prems" by simp
          then have "ldsc (fst (poll_rx_loop e h (i + 1) mp' tr1)) ! k = ldsc mp' ! k"
            using ihk by simp
          then show ?thesis
            using kl k by (simp add: mp'_def list_update_beyond)
        qed
      next
        case False
        then have same: "ldsc mp' ! k = ldsc mp ! k"
          by (simp add: mp'_def)
        have iff: "nat (i + 1) \<le> k \<longleftrightarrow> nat i \<le> k"
          using False "1.prems" by auto
        show ?thesis
          using ihk unfolding same iff .
      qed
    qed
  qed
qed


lemma rewind_loop_lines:
  assumes "0 \<le> i"
  shows "lines (rewind_loop i mp) = lines mp \<and>
         length (ldsc (rewind_loop i mp)) = length (ldsc mp) \<and>
         (\<forall>k. ldsc (rewind_loop i mp) ! k =
              (if nat i \<le> k \<and> int k < lines mp \<and> k < length (ldsc mp)
               then rewind_ln (ldsc mp ! k) else ldsc mp ! k))"
  using assms
proof (induction i mp rule: rewind_loop.induct)
  case (1 i mp)
  show ?case
  proof (cases "i < lines mp")
    case False
    have eq0: "rewind_loop i mp = mp"
      using False by (subst rewind_loop.simps) simp
    show ?thesis
      unfolding eq0 using False "1.prems" by auto
  next
    case True
    define mp' where "mp' = mp\<lparr>ldsc := (ldsc mp)[nat i := rewind_ln (ldsc mp ! nat i)]\<rparr>"
    have eq: "rewind_loop i mp = rewind_loop (i + 1) mp'"
      using True by (subst rewind_loop.simps) (simp add: mp'_def)
    have ih: "lines (rewind_loop (i + 1) mp') = lines mp' \<and>
         length (ldsc (rewind_loop (i + 1) mp')) = length (ldsc mp') \<and>
         (\<forall>k. ldsc (rewind_loop (i + 1) mp') ! k =
              (if nat (i + 1) \<le> k \<and> int k < lines mp' \<and> k < length (ldsc mp')
               then rewind_ln (ldsc mp' ! k) else ldsc mp' ! k))"
      using "1.IH" True "1.prems" by (simp add: mp'_def)
    show ?thesis
      unfolding eq
    proof (intro conjI allI)
      show "lines (rewind_loop (i + 1) mp') = lines mp"
        using ih by (simp add: mp'_def)
      show "length (ldsc (rewind_loop (i + 1) mp')) = length (ldsc mp)"
        using ih by (simp add: mp'_def)
      fix k
      note ihk = ih [THEN conjunct2, THEN conjunct2, THEN spec, of k]
      show "ldsc (rewind_loop (i + 1) mp') ! k =
              (if nat i \<le> k \<and> int k < lines mp \<and> k < length (ldsc mp)
               then rewind_ln (ldsc mp ! k) else ldsc mp ! k)"
        using ihk True "1.prems"
        by (cases "k = nat i") (auto simp: mp'_def list_update_beyond)
    qed
  qed
qed

lemma poll_rx_line:
  assumes "int k < lines mp" and "k < length (ldsc mp)"
  shows "\<exists>trk. ldsc (fst (tmxr_poll_rx e h mp tr)) ! k =
               rewind_ln (fst (poll_rx_ln e h (ldsc mp ! k) trk))"
proof -
  obtain mp1 tr1 where p: "poll_rx_loop e h 0 mp tr = (mp1, tr1)"
    by (cases "poll_rx_loop e h 0 mp tr") auto
  have q: "lines mp1 = lines mp \<and>
         length (ldsc mp1) = length (ldsc mp) \<and>
         (\<forall>k. if nat 0 \<le> k \<and> int k < lines mp \<and> k < length (ldsc mp)
              then \<exists>trk. ldsc mp1 ! k = fst (poll_rx_ln e h (ldsc mp ! k) trk)
              else ldsc mp1 ! k = ldsc mp ! k)"
    using poll_rx_loop_lines [of 0 e h mp tr, unfolded p fst_conv] by simp
  have a: "lines mp1 = lines mp" "length (ldsc mp1) = length (ldsc mp)"
    using q by simp_all
  have a3: "\<exists>trk. ldsc mp1 ! k = fst (poll_rx_ln e h (ldsc mp ! k) trk)"
    using q [THEN conjunct2, THEN conjunct2, THEN spec, of k] assms by simp
  have "ldsc (rewind_loop 0 mp1) ! k = rewind_ln (ldsc mp1 ! k)"
    using rewind_loop_lines [of 0 mp1] assms a by simp
  then show ?thesis
    using a3 by (auto simp: tmxr_poll_rx_def p)
qed

section \<open>Received sequences on one line\<close>

text \<open>
  A connected line with an empty receive buffer and the filter in its normal state reads
  four bytes. The buffers are taken apart into their first cells, so that the filter loop
  can be run on them.
\<close>

lemma len5:
  assumes "5 \<le> length xs"
  obtains a b c d e r where "xs = a # b # c # d # e # r"
proof -
  from assms obtain a r1 where "xs = a # r1" "4 \<le> length r1" by (cases xs) auto
  moreover then obtain b r2 where "r1 = b # r2" "3 \<le> length r2" by (cases r1) auto
  moreover then obtain c r3 where "r2 = c # r3" "2 \<le> length r3" by (cases r2) auto
  moreover then obtain d r4 where "r3 = d # r4" "1 \<le> length r4" by (cases r3) auto
  moreover then obtain e r5 where "r4 = e # r5" by (cases r4) auto
  ultimately show ?thesis using that by simp
qed

lemma getc_times_5:
  "getc_times h 5 x = getc_times h (Suc (Suc (Suc (Suc (Suc 0))))) x"
  by (simp add: numeral_eq_Suc)

lemma replicate_4: "replicate 4 x = [x, x, x, x]"
  by (simp add: numeral_eq_Suc)

lemma rx_crlf_ln:
  assumes c: "conn lp \<noteq> 0" "rcve lp" and i: "rxbpi lp = 0" "rxbpr lp = 0" and t: "tsta lp = 0"
    and l: "5 \<le> length (rxb lp)" "5 \<le> length (rbr lp)" and g: "4 \<le> TMXR_MAXBUF h - TMXR_GUARD h"
    and r: "sim_read_sock e tr (conn lp) (TMXR_MAXBUF h - TMXR_GUARD h) = Some [0x41, 0x0D, 0x0A, 0x42]"
  shows "getc_times h 5 (rewind_ln (fst (poll_rx_ln e h lp tr))) =
           (if dstb lp
            then [TMXR_VALID h OR 0x41, TMXR_VALID h OR 0x0D, TMXR_VALID h OR 0x42, 0, 0]
            else [TMXR_VALID h OR 0x41, TMXR_VALID h OR 0x0D, TMXR_VALID h OR 0x0A,
                  TMXR_VALID h OR 0x42, 0])"
proof -
  obtain a0 a1 a2 a3 a4 ar where xa: "rxb lp = a0 # a1 # a2 # a3 # a4 # ar"
    using l(1) by (rule len5)
  obtain b0 b1 b2 b3 b4 br where xb: "rbr lp = b0 # b1 # b2 # b3 # b4 # br"
    using l(2) by (rule len5)
  have tk: "take (nat (TMXR_MAXBUF h - TMXR_GUARD h)) [0x41, 0x0D, 0x0A, 0x42 :: byte] = [0x41, 0x0D, 0x0A, 0x42]"
    using g by simp
  have p: "fst (poll_rx_ln e h lp tr) =
             filter_loop (lp\<lparr>rxb := 0x41 # 0x0D # 0x0A # 0x42 # a4 # ar,
                               rbr := False # False # False # False # b4 # br,
                               rxbpi := 4, rxcnt := rxcnt lp + 4\<rparr>) 0"
    using c i t
    by (simp add: poll_rx_ln_def read_sock_def r tk Let_def xa xb arr_set_def replicate_4)
  show ?thesis
    unfolding p using c i t
    by (simp add: filter_loop.simps tn_step_def tmxr_rmvrc_def rmvrc_loop.simps arr_get_def
          arr_set_def TN_defs TNS_defs Let_def rewind_ln_def getc_times_5 tmxr_getc_ln_def)
qed

lemma rx_brk_ln:
  assumes c: "conn lp \<noteq> 0" "rcve lp" and i: "rxbpi lp = 0" "rxbpr lp = 0" and t: "tsta lp = 0"
    and l: "5 \<le> length (rxb lp)" "5 \<le> length (rbr lp)" and g: "4 \<le> TMXR_MAXBUF h - TMXR_GUARD h"
    and r: "sim_read_sock e tr (conn lp) (TMXR_MAXBUF h - TMXR_GUARD h) = Some [0x41, 0xFF, 0xF3, 0x42]"
  shows "getc_times h 5 (rewind_ln (fst (poll_rx_ln e h lp tr))) =
           [TMXR_VALID h OR 0x41, TMXR_VALID h OR 0 OR SCPE_BREAK h, TMXR_VALID h OR 0x42, 0, 0]"
proof -
  obtain a0 a1 a2 a3 a4 ar where xa: "rxb lp = a0 # a1 # a2 # a3 # a4 # ar"
    using l(1) by (rule len5)
  obtain b0 b1 b2 b3 b4 br where xb: "rbr lp = b0 # b1 # b2 # b3 # b4 # br"
    using l(2) by (rule len5)
  have tk: "take (nat (TMXR_MAXBUF h - TMXR_GUARD h)) [0x41, 0xFF, 0xF3, 0x42 :: byte] = [0x41, 0xFF, 0xF3, 0x42]"
    using g by simp
  have p: "fst (poll_rx_ln e h lp tr) =
             filter_loop (lp\<lparr>rxb := 0x41 # 0xFF # 0xF3 # 0x42 # a4 # ar,
                               rbr := False # False # False # False # b4 # br,
                               rxbpi := 4, rxcnt := rxcnt lp + 4\<rparr>) 0"
    using c i t
    by (simp add: poll_rx_ln_def read_sock_def r tk Let_def xa xb arr_set_def replicate_4)
  show ?thesis
    unfolding p using c i t
    by (simp add: filter_loop.simps tn_step_def tmxr_rmvrc_def rmvrc_loop.simps arr_get_def
          arr_set_def TN_defs TNS_defs Let_def rewind_ln_def getc_times_5 tmxr_getc_ln_def)
qed

text \<open>
  The same line reads IAC WONT BIN and then the four bytes: the three bytes of the option
  are removed, \<open>dstb\<close> is set, and the LF after the CR is removed.
\<close>

lemma len8:
  assumes "8 \<le> length xs"
  obtains a b c d e f g h r where "xs = a # b # c # d # e # f # g # h # r"
proof -
  have "5 \<le> length xs"
    using assms by simp
  then obtain a b c d e r5 where x: "xs = a # b # c # d # e # r5"
    by (rule len5)
  then have "3 \<le> length r5" using assms by simp
  then obtain f r6 where "r5 = f # r6" "2 \<le> length r6" by (cases r5) auto
  moreover then obtain g r7 where "r6 = g # r7" "1 \<le> length r7" by (cases r6) auto
  moreover then obtain h r8 where "r7 = h # r8" by (cases r7) auto
  ultimately show ?thesis using that x by simp
qed

lemma replicate_7: "replicate 7 x = [x, x, x, x, x, x, x]"
  by (simp add: numeral_eq_Suc)

lemma rx_wontbin_crlf_ln:
  assumes c: "conn lp \<noteq> 0" "rcve lp" and i: "rxbpi lp = 0" "rxbpr lp = 0" and t: "tsta lp = 0"
    and l: "8 \<le> length (rxb lp)" "8 \<le> length (rbr lp)" and g: "7 \<le> TMXR_MAXBUF h - TMXR_GUARD h"
    and r: "sim_read_sock e tr (conn lp) (TMXR_MAXBUF h - TMXR_GUARD h) =
              Some [0xFF, 0xFC, 0x00, 0x41, 0x0D, 0x0A, 0x42]"
  shows "dstb (rewind_ln (fst (poll_rx_ln e h lp tr)))"
    and "getc_times h 5 (rewind_ln (fst (poll_rx_ln e h lp tr))) =
           [TMXR_VALID h OR 0x41, TMXR_VALID h OR 0x0D, TMXR_VALID h OR 0x42, 0, 0]"
proof -
  obtain a0 a1 a2 a3 a4 a5 a6 a7 ar where xa: "rxb lp = a0 # a1 # a2 # a3 # a4 # a5 # a6 # a7 # ar"
    using l(1) by (rule len8)
  obtain b0 b1 b2 b3 b4 b5 b6 b7 br where xb: "rbr lp = b0 # b1 # b2 # b3 # b4 # b5 # b6 # b7 # br"
    using l(2) by (rule len8)
  have tk: "take (nat (TMXR_MAXBUF h - TMXR_GUARD h)) [0xFF, 0xFC, 0x00, 0x41, 0x0D, 0x0A, 0x42 :: byte] =
              [0xFF, 0xFC, 0x00, 0x41, 0x0D, 0x0A, 0x42]"
    using g by simp
  have p: "fst (poll_rx_ln e h lp tr) =
             filter_loop (lp\<lparr>rxb := 0xFF # 0xFC # 0x00 # 0x41 # 0x0D # 0x0A # 0x42 # a7 # ar,
                               rbr := False # False # False # False # False # False # False # b7 # br,
                               rxbpi := 7, rxcnt := rxcnt lp + 7\<rparr>) 0"
    using c i t
    by (simp add: poll_rx_ln_def read_sock_def r tk Let_def xa xb arr_set_def replicate_7)
  show "dstb (rewind_ln (fst (poll_rx_ln e h lp tr)))"
    unfolding p using c i t
    by (simp add: filter_loop.simps tn_step_def tmxr_rmvrc_def rmvrc_loop.simps arr_get_def
          arr_set_def TN_defs TNS_defs Let_def rewind_ln_def)
  show "getc_times h 5 (rewind_ln (fst (poll_rx_ln e h lp tr))) =
           [TMXR_VALID h OR 0x41, TMXR_VALID h OR 0x0D, TMXR_VALID h OR 0x42, 0, 0]"
    unfolding p using c i t
    by (simp add: filter_loop.simps tn_step_def tmxr_rmvrc_def rmvrc_loop.simps arr_get_def
          arr_set_def TN_defs TNS_defs Let_def rewind_ln_def getc_times_5 tmxr_getc_ln_def)
qed

section \<open>Claims about received sequences\<close>

text \<open>
  C2, as stated: on a line fresh from \<open>tmxr_poll_conn\<close> the bytes 41 0D 0A 42 come
  out of \<open>tmxr_getc_ln\<close> as three values, the LF removed. On the idle multiplexer
  they come out as four: A, CR, LF, B.
\<close>

theorem crlf_after_accept_counterexample:
  "fst accepted = 0 \<and>
   getc_times hdr_ex 5
     (ldsc (fst (tmxr_poll_rx env_crlf hdr_ex (rcv_enabled (fst (snd accepted)) 0)
                   (snd (snd accepted)))) ! 0) =
     [0x8041, 0x800D, 0x800A, 0x8042, 0]"
  by code_simp

text \<open>
  C2, amended: a line that \<open>tmxr_poll_conn\<close> has just connected has \<open>dstb = 0\<close>,
  which is binary mode, and in that mode a CR does not arm the removal of the byte after
  it. So when the line is enabled for receive and \<open>tmxr_poll_rx\<close> reads the bytes
  41 0D 0A 42, successive calls of \<open>tmxr_getc_ln\<close> return four valid values, A, CR,
  LF and B, and then 0. When the peer first refuses binary mode, so that the read delivers
  FF FC 00 41 0D 0A 42, the filter sets \<open>dstb\<close> and the calls return three valid
  values, A, CR and B: the LF is removed. The line is assumed to have had an empty receive
  buffer, as a reset leaves it, and a transmit ring that holds the greeting, and the
  socket is not 0.
\<close>

theorem crlf_after_accept:
  assumes pc: "tmxr_poll_conn e h mp tr = (i, mp1, tr1)" and i: "0 \<le> i"
    and len: "nat i < length (ldsc mp)"
    and fits: "greeting_fits e mp i"
    and idle: "rxbpi (ldsc mp ! nat i) = 0" "rxbpr (ldsc mp ! nat i) = 0"
    and bufs: "5 \<le> length (rxb (ldsc mp ! nat i))" "5 \<le> length (rbr (ldsc mp ! nat i))"
      "4 \<le> TMXR_MAXBUF h - TMXR_GUARD h"
    and sock: "fst (sim_accept_conn e tr (master mp)) \<noteq> 0"
  shows "((\<forall>tr'. sim_read_sock e tr' (fst (sim_accept_conn e tr (master mp)))
                    (TMXR_MAXBUF h - TMXR_GUARD h) = Some [0x41, 0x0D, 0x0A, 0x42]) \<longrightarrow>
          getc_times h 5 (ldsc (fst (tmxr_poll_rx e h (rcv_enabled mp1 i) tr1)) ! nat i) =
            [TMXR_VALID h OR 0x41, TMXR_VALID h OR 0x0D, TMXR_VALID h OR 0x0A,
             TMXR_VALID h OR 0x42, 0]) \<and>
         ((\<forall>tr'. sim_read_sock e tr' (fst (sim_accept_conn e tr (master mp)))
                    (TMXR_MAXBUF h - TMXR_GUARD h) =
                  Some [0xFF, 0xFC, 0x00, 0x41, 0x0D, 0x0A, 0x42]) \<and>
          8 \<le> length (rxb (ldsc mp ! nat i)) \<and> 8 \<le> length (rbr (ldsc mp ! nat i)) \<and>
          7 \<le> TMXR_MAXBUF h - TMXR_GUARD h \<longrightarrow>
          dstb (ldsc (fst (tmxr_poll_rx e h (rcv_enabled mp1 i) tr1)) ! nat i) \<and>
          getc_times h 5 (ldsc (fst (tmxr_poll_rx e h (rcv_enabled mp1 i) tr1)) ! nat i) =
            [TMXR_VALID h OR 0x41, TMXR_VALID h OR 0x0D, TMXR_VALID h OR 0x42, 0, 0])"
proof -
  note pl = poll_conn_line [OF pc i len]
  define lp where "lp = (ldsc mp1 ! nat i)\<lparr>rcve := True\<rparr>"
  have il: "int (nat i) < lines (rcv_enabled mp1 i)" "nat i < length (ldsc (rcv_enabled mp1 i))"
    "ldsc (rcv_enabled mp1 i) ! nat i = lp"
  proof -
    have "i < lines mp"
      using pc i unfolding tmxr_poll_conn_def Let_def split_beta by (auto split: if_splits)
    then show "int (nat i) < lines (rcv_enabled mp1 i)"
      using i pl(10) by (simp add: rcv_enabled_def)
    show "nat i < length (ldsc (rcv_enabled mp1 i))"
      using len pl(9) by (simp add: rcv_enabled_def)
    then show "ldsc (rcv_enabled mp1 i) ! nat i = lp"
      by (simp add: rcv_enabled_def lp_def)
  qed
  obtain trk where k: "ldsc (fst (tmxr_poll_rx e h (rcv_enabled mp1 i) tr1)) ! nat i =
                         rewind_ln (fst (poll_rx_ln e h lp trk))"
    using poll_rx_line [OF il(1) il(2), of e h tr1] il(3) by auto
  have f: "conn lp \<noteq> 0" "rcve lp" "rxbpi lp = 0" "rxbpr lp = 0" "tsta lp = 0" "\<not> dstb lp"
    "5 \<le> length (rxb lp)" "5 \<le> length (rbr lp)"
    using pl sock idle bufs by (simp_all add: lp_def)
  have cl: "conn lp = fst (sim_accept_conn e tr (master mp))"
    "length (rxb lp) = length (rxb (ldsc mp ! nat i))"
    "length (rbr lp) = length (rbr (ldsc mp ! nat i))"
    using pl by (simp_all add: lp_def)
  show ?thesis
  proof (intro conjI impI)
    assume rd: "\<forall>tr'. sim_read_sock e tr' (fst (sim_accept_conn e tr (master mp)))
                    (TMXR_MAXBUF h - TMXR_GUARD h) = Some [0x41, 0x0D, 0x0A, 0x42]"
    have r: "sim_read_sock e trk (conn lp) (TMXR_MAXBUF h - TMXR_GUARD h) =
               Some [0x41, 0x0D, 0x0A, 0x42]"
      using rd cl(1) by simp
    show "getc_times h 5 (ldsc (fst (tmxr_poll_rx e h (rcv_enabled mp1 i) tr1)) ! nat i) =
            [TMXR_VALID h OR 0x41, TMXR_VALID h OR 0x0D, TMXR_VALID h OR 0x0A,
             TMXR_VALID h OR 0x42, 0]"
      unfolding k using rx_crlf_ln [OF f(1-5) f(7,8) bufs(3) r] f(6) by simp
  next
    assume a: "(\<forall>tr'. sim_read_sock e tr' (fst (sim_accept_conn e tr (master mp)))
                    (TMXR_MAXBUF h - TMXR_GUARD h) =
                  Some [0xFF, 0xFC, 0x00, 0x41, 0x0D, 0x0A, 0x42]) \<and>
          8 \<le> length (rxb (ldsc mp ! nat i)) \<and> 8 \<le> length (rbr (ldsc mp ! nat i)) \<and>
          7 \<le> TMXR_MAXBUF h - TMXR_GUARD h"
    have r: "sim_read_sock e trk (conn lp) (TMXR_MAXBUF h - TMXR_GUARD h) =
               Some [0xFF, 0xFC, 0x00, 0x41, 0x0D, 0x0A, 0x42]"
      using a cl(1) by simp
    have l8: "8 \<le> length (rxb lp)" "8 \<le> length (rbr lp)" "7 \<le> TMXR_MAXBUF h - TMXR_GUARD h"
      using a cl by simp_all
    note w = rx_wontbin_crlf_ln [OF f(1-5) l8 r]
    show "dstb (ldsc (fst (tmxr_poll_rx e h (rcv_enabled mp1 i) tr1)) ! nat i)"
      unfolding k by (rule w(1))
    show "getc_times h 5 (ldsc (fst (tmxr_poll_rx e h (rcv_enabled mp1 i) tr1)) ! nat i) =
            [TMXR_VALID h OR 0x41, TMXR_VALID h OR 0x0D, TMXR_VALID h OR 0x42, 0, 0]"
      unfolding k by (rule w(2))
  qed
qed

text \<open>
  The idle multiplexer with one line accepts a connection and reads the four bytes, with
  and without IAC WONT BIN before them.
\<close>

theorem crlf_after_accept_witness:
  "tmxr_poll_conn env_crlf hdr_ex mux1 [] = (0, fst (snd accepted), snd (snd accepted)) \<and>
   greeting_fits env_crlf mux1 0 \<and>
   getc_times hdr_ex 5
     (ldsc (fst (tmxr_poll_rx env_crlf hdr_ex (rcv_enabled (fst (snd accepted)) 0)
                   (snd (snd accepted)))) ! nat 0) =
     [0x8041, 0x800D, 0x800A, 0x8042, 0] \<and>
   tmxr_poll_conn env_wontbin hdr_ex mux1 [] =
     (0, fst (snd accepted_wontbin), snd (snd accepted_wontbin)) \<and>
   greeting_fits env_wontbin mux1 0 \<and>
   dstb (ldsc (fst (tmxr_poll_rx env_wontbin hdr_ex (rcv_enabled (fst (snd accepted_wontbin)) 0)
                   (snd (snd accepted_wontbin)))) ! nat 0) \<and>
   getc_times hdr_ex 5
     (ldsc (fst (tmxr_poll_rx env_wontbin hdr_ex (rcv_enabled (fst (snd accepted_wontbin)) 0)
                   (snd (snd accepted_wontbin)))) ! nat 0) =
     [0x8041, 0x800D, 0x8042, 0, 0]"
proof -
  have a0: "fst accepted = 0"
    by code_simp
  have pc: "tmxr_poll_conn env_crlf hdr_ex mux1 [] = (0, fst (snd accepted), snd (snd accepted))"
    using a0 prod.collapse [of accepted] prod.collapse [of "snd accepted"]
    by (simp add: accepted_def)
  have b0: "fst accepted_wontbin = 0"
    by code_simp
  have pcw: "tmxr_poll_conn env_wontbin hdr_ex mux1 [] =
               (0, fst (snd accepted_wontbin), snd (snd accepted_wontbin))"
    using b0 prod.collapse [of accepted_wontbin] prod.collapse [of "snd accepted_wontbin"]
    by (simp add: accepted_wontbin_def)
  have g: "greeting_fits env_crlf mux1 0" "greeting_fits env_wontbin mux1 0"
    by code_simp+
  have h: "nat 0 < length (ldsc mux1)"
    "rxbpi (ldsc mux1 ! nat 0) = 0" "rxbpr (ldsc mux1 ! nat 0) = 0"
    "5 \<le> length (rxb (ldsc mux1 ! nat 0))" "5 \<le> length (rbr (ldsc mux1 ! nat 0))"
    "4 \<le> TMXR_MAXBUF hdr_ex - TMXR_GUARD hdr_ex"
    by (simp_all add: mux1_def ln_idle_def hdr_ex_def)
  have s: "fst (sim_accept_conn env_crlf [] (master mux1)) \<noteq> 0"
    "fst (sim_accept_conn env_wontbin [] (master mux1)) \<noteq> 0"
    by (simp_all add: env_crlf_def env_wontbin_def)
  have r: "\<forall>tr'. sim_read_sock env_crlf tr' (fst (sim_accept_conn env_crlf [] (master mux1)))
            (TMXR_MAXBUF hdr_ex - TMXR_GUARD hdr_ex) = Some [0x41, 0x0D, 0x0A, 0x42]"
    by (simp add: env_crlf_def)
  have rw: "(\<forall>tr'. sim_read_sock env_wontbin tr'
                 (fst (sim_accept_conn env_wontbin [] (master mux1)))
                 (TMXR_MAXBUF hdr_ex - TMXR_GUARD hdr_ex) =
               Some [0xFF, 0xFC, 0x00, 0x41, 0x0D, 0x0A, 0x42]) \<and>
            8 \<le> length (rxb (ldsc mux1 ! nat 0)) \<and> 8 \<le> length (rbr (ldsc mux1 ! nat 0)) \<and>
            7 \<le> TMXR_MAXBUF hdr_ex - TMXR_GUARD hdr_ex"
    by (simp add: env_wontbin_def env_crlf_def mux1_def ln_idle_def hdr_ex_def)
  have v: "TMXR_VALID hdr_ex = 0x8000"
    by (simp add: hdr_ex_def)
  have i0: "(0::int) \<le> 0"
    by simp
  note t1 = crlf_after_accept [OF pc i0 h(1) g(1) h(2-6) s(1), THEN conjunct1, THEN mp, OF r]
  note t2 = crlf_after_accept [OF pcw i0 h(1) g(2) h(2-6) s(2), THEN conjunct2, THEN mp, OF rw]
  show ?thesis
    using pc pcw g t1 t2 by (simp add: v)
qed

text \<open>
  C8: in the normal state the two bytes IAC BRK at positions \<open>j\<close> and \<open>j + 1\<close> of
  the received data become, in two turns of the filter, one entry at \<open>j\<close> with byte
  0 and its break flag set; the data before it is untouched, the data after it moves down
  one place, and the filter goes on at \<open>j + 1\<close> in the normal state. And when a
  connected line, enabled for receive, with an empty buffer and the filter in its normal
  state, reads 41 FF F3 42 in \<open>tmxr_poll_rx\<close>, successive calls of \<open>tmxr_getc_ln\<close>
  return A, then 0 with the break flag, then B, each with the valid flag, and then 0.
\<close>

theorem iac_brk_one_entry:
  "(tsta lp = TNS_NORM \<and> 0 \<le> j \<and> j + 1 < rxbpi lp \<and>
    rxbpi lp \<le> int (length (rxb lp)) \<and> rxbpi lp \<le> int (length (rbr lp)) \<and>
    arr_get (rxb lp) j 0 = 0xFF \<and> arr_get (rxb lp) (j + 1) 0 = 0xF3 \<longrightarrow>
      (let (lp1, j1) = tn_step lp j; (lp2, j2) = tn_step lp1 j1 in
         j1 = j \<and> j2 = j + 1 \<and> tsta lp2 = TNS_NORM \<and> rxbpi lp2 = rxbpi lp - 1 \<and>
         rxbpr lp2 = rxbpr lp \<and>
         arr_get (rxb lp2) j 0 = 0 \<and> arr_get (rbr lp2) j False \<and>
         (\<forall>k. k < j \<longrightarrow> arr_get (rxb lp2) k 0 = arr_get (rxb lp) k 0 \<and>
                          arr_get (rbr lp2) k False = arr_get (rbr lp) k False) \<and>
         (\<forall>k. j < k \<and> k < rxbpi lp - 1 \<longrightarrow>
               arr_get (rxb lp2) k 0 = arr_get (rxb lp) (k + 1) 0 \<and>
               arr_get (rbr lp2) k False = arr_get (rbr lp) (k + 1) False) \<and>
         filter_loop lp j = filter_loop lp2 j2)) \<and>
   (int k < lines mp \<and> k < length (ldsc mp) \<and>
    conn (ldsc mp ! k) \<noteq> 0 \<and> rcve (ldsc mp ! k) \<and>
    rxbpi (ldsc mp ! k) = 0 \<and> rxbpr (ldsc mp ! k) = 0 \<and> tsta (ldsc mp ! k) = 0 \<and>
    5 \<le> length (rxb (ldsc mp ! k)) \<and> 5 \<le> length (rbr (ldsc mp ! k)) \<and>
    4 \<le> TMXR_MAXBUF h - TMXR_GUARD h \<and>
    (\<forall>tr'. sim_read_sock e tr' (conn (ldsc mp ! k)) (TMXR_MAXBUF h - TMXR_GUARD h) =
            Some [0x41, 0xFF, 0xF3, 0x42]) \<longrightarrow>
      getc_times h 5 (ldsc (fst (tmxr_poll_rx e h mp tr)) ! k) =
        [TMXR_VALID h OR 0x41, TMXR_VALID h OR 0 OR SCPE_BREAK h, TMXR_VALID h OR 0x42, 0, 0])"
proof (intro conjI impI)
  assume a: "tsta lp = TNS_NORM \<and> 0 \<le> j \<and> j + 1 < rxbpi lp \<and>
    rxbpi lp \<le> int (length (rxb lp)) \<and> rxbpi lp \<le> int (length (rbr lp)) \<and>
    arr_get (rxb lp) j 0 = 0xFF \<and> arr_get (rxb lp) (j + 1) 0 = 0xF3"
  have b: "arr_get (rxb lp) j 0 = TN_IAC" "arr_get (rxb lp) (j + 1) 0 = TN_BRK"
    using a by (simp_all add: TN_defs)
  show "let (lp1, j1) = tn_step lp j; (lp2, j2) = tn_step lp1 j1 in
         j1 = j \<and> j2 = j + 1 \<and> tsta lp2 = TNS_NORM \<and> rxbpi lp2 = rxbpi lp - 1 \<and>
         rxbpr lp2 = rxbpr lp \<and>
         arr_get (rxb lp2) j 0 = 0 \<and> arr_get (rbr lp2) j False \<and>
         (\<forall>k. k < j \<longrightarrow> arr_get (rxb lp2) k 0 = arr_get (rxb lp) k 0 \<and>
                          arr_get (rbr lp2) k False = arr_get (rbr lp) k False) \<and>
         (\<forall>k. j < k \<and> k < rxbpi lp - 1 \<longrightarrow>
               arr_get (rxb lp2) k 0 = arr_get (rxb lp) (k + 1) 0 \<and>
               arr_get (rbr lp2) k False = arr_get (rbr lp) (k + 1) False) \<and>
         filter_loop lp j = filter_loop lp2 j2"
    using a by (intro iac_brk_steps b) simp_all
next
  assume a: "int k < lines mp \<and> k < length (ldsc mp) \<and>
    conn (ldsc mp ! k) \<noteq> 0 \<and> rcve (ldsc mp ! k) \<and>
    rxbpi (ldsc mp ! k) = 0 \<and> rxbpr (ldsc mp ! k) = 0 \<and> tsta (ldsc mp ! k) = 0 \<and>
    5 \<le> length (rxb (ldsc mp ! k)) \<and> 5 \<le> length (rbr (ldsc mp ! k)) \<and>
    4 \<le> TMXR_MAXBUF h - TMXR_GUARD h \<and>
    (\<forall>tr'. sim_read_sock e tr' (conn (ldsc mp ! k)) (TMXR_MAXBUF h - TMXR_GUARD h) =
            Some [0x41, 0xFF, 0xF3, 0x42])"
  obtain trk where t: "ldsc (fst (tmxr_poll_rx e h mp tr)) ! k =
                         rewind_ln (fst (poll_rx_ln e h (ldsc mp ! k) trk))"
    using poll_rx_line [of k mp e h tr] a by auto
  have r: "sim_read_sock e trk (conn (ldsc mp ! k)) (TMXR_MAXBUF h - TMXR_GUARD h) =
             Some [0x41, 0xFF, 0xF3, 0x42]"
    using a by simp
  show "getc_times h 5 (ldsc (fst (tmxr_poll_rx e h mp tr)) ! k) =
        [TMXR_VALID h OR 0x41, TMXR_VALID h OR 0 OR SCPE_BREAK h, TMXR_VALID h OR 0x42, 0, 0]"
    unfolding t using a by (intro rx_brk_ln r) simp_all
qed

text \<open>The filter steps on a line holding 41 FF F3 42, and a multiplexer reading them.\<close>

theorem iac_brk_one_entry_witness:
  "rxbpi ln_brk = 4 \<and> arr_get (rxb ln_brk) 1 0 = 0xFF \<and> arr_get (rxb ln_brk) 2 0 = 0xF3 \<and>
   rxbpi (fst (tn_step (fst (tn_step ln_brk 1)) 1)) = 3 \<and>
   arr_get (rxb (fst (tn_step (fst (tn_step ln_brk 1)) 1))) 1 0 = 0 \<and>
   arr_get (rbr (fst (tn_step (fst (tn_step ln_brk 1)) 1))) 1 False \<and>
   getc_times hdr_ex 5 (ldsc (fst (tmxr_poll_rx env_brk hdr_ex mux1_conn [])) ! 0) =
     [0x8041, 0xA000, 0x8042, 0, 0]"
proof -
  have f: "tsta ln_brk = TNS_NORM" "rxbpi ln_brk = 4" "length (rxb ln_brk) = 256"
    "length (rbr ln_brk) = 256" "arr_get (rxb ln_brk) 1 0 = 0xFF"
    "arr_get (rxb ln_brk) 2 0 = 0xF3"
    by (simp_all add: ln_brk_def ln_idle_def TNS_defs arr_get_def)
  have s: "snd (tn_step ln_brk 1) = 1"
    using f by (simp add: tn_step_def Let_def TN_defs)
  have g: "0 < lines mux1_conn" "ldsc mux1_conn \<noteq> []"
    "conn (ldsc mux1_conn ! 0) \<noteq> 0" "rcve (ldsc mux1_conn ! 0)"
    "rxbpi (ldsc mux1_conn ! 0) = 0" "rxbpr (ldsc mux1_conn ! 0) = 0"
    "tsta (ldsc mux1_conn ! 0) = 0"
    "5 \<le> length (rxb (ldsc mux1_conn ! 0))" "5 \<le> length (rbr (ldsc mux1_conn ! 0))"
    "4 \<le> TMXR_MAXBUF hdr_ex - TMXR_GUARD hdr_ex"
    "\<forall>tr'. sim_read_sock env_brk tr' (conn (ldsc mux1_conn ! 0))
            (TMXR_MAXBUF hdr_ex - TMXR_GUARD hdr_ex) = Some [0x41, 0xFF, 0xF3, 0x42]"
    by (simp_all add: mux1_conn_def mux1_def ln_idle_def hdr_ex_def env_brk_def env_crlf_def)
  have v: "TMXR_VALID hdr_ex = 0x8000" "SCPE_BREAK hdr_ex = 0x2000"
    by (simp_all add: hdr_ex_def)
  show ?thesis
    using iac_brk_one_entry [of ln_brk 1 0 mux1_conn hdr_ex env_brk "[]"]
    by (simp add: f s g v split_beta Let_def)
qed

section \<open>Claims about \<open>tmxr_poll_conn\<close>\<close>

text \<open>
  Without a connection order the search is sound: it ends either at a free line or, all
  lines from \<open>j\<close> on being busy, at \<open>lines\<close>. Then \<open>tmxr_poll_conn\<close> connects
  free lines only, and with all lines busy it writes the message to the new socket, closes
  it and returns -1.
\<close>

lemma scan_loop_seq:
  assumes "lnorder mp = None" and "0 \<le> j" and "j < lines mp"
  shows "(scan_loop mp k j i = lines mp \<and>
            (\<forall>m. j \<le> m \<and> m < lines mp \<longrightarrow> conn (ldsc mp ! nat m) \<noteq> 0)) \<or>
         (j \<le> scan_loop mp k j i \<and> scan_loop mp k j i < lines mp \<and>
            conn (ldsc mp ! nat (scan_loop mp k j i)) = 0)"
  using assms
proof (induction mp k j i rule: scan_loop.induct)
  case (1 mp k j i)
  show ?case
  proof (cases "conn (ldsc mp ! nat j) = 0")
    case True
    then have "scan_loop mp k j i = j"
      using "1.prems" by (subst scan_loop.simps) simp
    then show ?thesis
      using True "1.prems" by simp
  next
    case False
    have eq: "scan_loop mp k j i = scan_loop mp k (j + 1) (j + 1)"
      using False "1.prems" by (subst scan_loop.simps) simp
    show ?thesis
    proof (cases "j + 1 < lines mp")
      case True
      have p: "0 \<le> j + 1" using "1.prems" by simp
      have c: "(j, k) = (case lnorder mp of
                  Some ord \<Rightarrow>
                    (if k < length ord \<and> ord ! k \<ge> 0 \<and> ord ! k < lines mp
                     then (ord ! k, k + 1) else (j, k))
                | None \<Rightarrow> (j, k))"
        using "1.prems" by simp
      have f: "conn (ldsc mp ! nat j) \<noteq> 0" using False .
      note ih = "1.IH" [OF "1.prems"(3) c refl f "1.prems"(1) p True]
      have "\<And>m. j \<le> m \<Longrightarrow> m < lines mp \<Longrightarrow> m = j \<or> j + 1 \<le> m"
        by linarith
      then show ?thesis
        unfolding eq using ih False by auto
    next
      case F: False
      then have l: "lines mp = j + 1"
        using "1.prems" by simp
      have "scan_loop mp k (j + 1) (j + 1) = j + 1"
        using F by (subst scan_loop.simps) simp
      moreover have "\<And>m. j \<le> m \<Longrightarrow> m < lines mp \<Longrightarrow> m = j"
        using l by simp
      ultimately show ?thesis
        unfolding eq using False l by auto
    qed
  qed
qed

lemma poll_conn_seq_free:
  assumes "lnorder mp = None" and "0 \<le> fst (tmxr_poll_conn e h mp tr)"
  shows "conn (ldsc mp ! nat (fst (tmxr_poll_conn e h mp tr))) = 0"
proof -
  define r where "r = scan_loop mp 0 0 (lines mp)"
  have fr: "fst (tmxr_poll_conn e h mp tr) = r" "r < lines mp"
    using assms(2) unfolding tmxr_poll_conn_def Let_def split_beta r_def
    by (auto split: if_splits)
  then have "0 < lines mp" using assms(2) by simp
  from scan_loop_seq [OF assms(1) _ this, of 0 "lines mp"] fr
  show ?thesis
    by (auto simp: r_def)
qed

lemma poll_conn_seq_busy:
  assumes "lnorder mp = None"
    and "\<forall>m. 0 \<le> m \<and> m < lines mp \<longrightarrow> conn (ldsc mp ! nat m) \<noteq> 0"
    and "sim_accept_conn e tr (master mp) = (newsock, ip)"
    and "newsock \<noteq> INVALID_SOCKET h" and "newsock \<noteq> 0"
  shows "tmxr_poll_conn e h mp tr =
           (- 1, mp,
            tr @ [Accept (master mp) newsock ip,
                  Write newsock busy_msg
                    (sim_write_sock e (tr @ [Accept (master mp) newsock ip]) newsock busy_msg),
                  Close newsock 0])"
proof -
  have "scan_loop mp 0 0 (lines mp) \<ge> lines mp"
  proof (cases "0 < lines mp")
    case True
    from scan_loop_seq [OF assms(1) _ True, of 0 "lines mp"] assms(2)
    show ?thesis by auto
  next
    case False
    then show ?thesis by (subst scan_loop.simps) simp
  qed
  then show ?thesis
    using assms(3-5)
    by (simp add: tmxr_poll_conn_def Let_def tmxr_msg_def write_sock_def close_sock_def)
qed

text \<open>
  C1 says that \<open>tmxr_poll_conn\<close> gives a new connection only to a free line and, when
  all lines are busy, reports it on the new socket, closes that socket and returns -1,
  with or without a connection order. The code on two busy lines with the order 1;0: the
  loop ends with \<open>i = 1\<close>, the test \<open>i >= lines\<close> fails, line 1 gets the new socket
  in place of the one it had, and 1 is returned.
\<close>

theorem poll_conn_order_overwrites:
  "conn (ldsc mux_busy ! 0) = 5 \<and> conn (ldsc mux_busy ! 1) = 6 \<and>
   fst (tmxr_poll_conn env_open hdr_ex mux_busy []) = 1 \<and>
   conn (ldsc (fst (snd (tmxr_poll_conn env_open hdr_ex mux_busy []))) ! 1) = 7"
  by code_simp

end
